theory Spec2Isabelle
  imports Complex_Main "HOL-Library.Word" "HOL-Library.Finite_Map"
begin

section \<open>Round lifecycle: \<open>server/round_manager.go\<close>\<close>

text \<open>
  Go's \<open>int\<close> is a 64-bit two's complement integer on the 64-bit targets: \<open>+\<close> wraps,
  \<open>sint\<close> reads the signed value, and equality is equality of the bit patterns.
\<close>

type_synonym go_int = "64 word"

text \<open>\<open>type RoundState int\<close> with the three constants declared by \<open>iota\<close>.\<close>

datatype RoundState = RoundWaiting | RoundAggregating | RoundComplete

text \<open>
  \<open>type RoundManager struct\<close>. The mutex is left out: every method holds it from its
  first to its last statement, so each call is one atomic step on the fields.
  \<open>ReceivedClients\<close> is a Go \<open>map[string]bool\<close>: a finite map, whose \<open>len\<close> counts the
  keys and whose lookup of a missing key yields \<open>false\<close>.
\<close>

record RoundManager =
  CurrentRound :: go_int
  ExpectedClients :: go_int
  ReceivedClients :: "(string, bool) fmap"
  State :: RoundState

definition NewRoundManager :: "go_int \<Rightarrow> RoundManager" where
  "NewRoundManager quorum =
     \<lparr>CurrentRound = 0, ExpectedClients = quorum, ReceivedClients = fmempty,
      State = RoundWaiting\<rparr>"

text \<open>\<open>rm.ReceivedClients[hospitalID]\<close>: the stored value, \<open>false\<close> for a missing key.\<close>

definition lookup_client :: "(string, bool) fmap \<Rightarrow> string \<Rightarrow> bool" where
  "lookup_client m hospitalID =
     (case fmlookup m hospitalID of None \<Rightarrow> False | Some b \<Rightarrow> b)"

text \<open>
  \<open>len(rm.ReceivedClients)\<close>: the number of keys. A Go map never holds more entries
  than an \<open>int\<close> counts, so the length is read as a natural number.
\<close>

definition len_clients :: "(string, bool) fmap \<Rightarrow> nat" where
  "len_clients m = fcard (fmdom m)"

text \<open>
  \<open>RecordUpdate\<close> returns \<open>(accepted, quorumMet)\<close> and mutates the receiver; the model
  returns the two results together with the receiver after the call.
\<close>

record RecordResult =
  accepted :: bool
  quorumMet :: bool
  after :: RoundManager

definition RecordUpdate :: "RoundManager \<Rightarrow> string \<Rightarrow> go_int \<Rightarrow> RecordResult" where
  "RecordUpdate rm hospitalID roundID =
     (if roundID \<noteq> CurrentRound rm then
        \<lparr>accepted = False, quorumMet = False, after = rm\<rparr>
      else if State rm \<noteq> RoundWaiting then
        \<lparr>accepted = False, quorumMet = False, after = rm\<rparr>
      else if lookup_client (ReceivedClients rm) hospitalID then
        \<lparr>accepted = False, quorumMet = False, after = rm\<rparr>
      else
        let rm1 = rm\<lparr>ReceivedClients := fmupd hospitalID True (ReceivedClients rm)\<rparr>;
            received = len_clients (ReceivedClients rm1)
        in if sint (ExpectedClients rm1) \<le> int received then
             \<lparr>accepted = True, quorumMet = True, after = rm1\<lparr>State := RoundAggregating\<rparr>\<rparr>
           else
             \<lparr>accepted = True, quorumMet = False, after = rm1\<rparr>)"

definition AdvanceRound :: "RoundManager \<Rightarrow> RoundManager" where
  "AdvanceRound rm =
     rm\<lparr>CurrentRound := CurrentRound rm + 1, ReceivedClients := fmempty,
        State := RoundWaiting\<rparr>"

text \<open>\<open>Status\<close> returns \<open>(round, expected, received, state)\<close>.\<close>

definition Status :: "RoundManager \<Rightarrow> go_int \<times> go_int \<times> nat \<times> RoundState" where
  "Status rm =
     (CurrentRound rm, ExpectedClients rm, len_clients (ReceivedClients rm), State rm)"

text \<open>
  A sequence of \<open>RecordUpdate\<close> calls, each given as \<open>(hospitalID, roundID)\<close>:
  \<open>run_calls rm cs\<close> is the manager after all of them.
\<close>

fun run_calls :: "RoundManager \<Rightarrow> (string \<times> go_int) list \<Rightarrow> RoundManager" where
  "run_calls rm [] = rm"
| "run_calls rm (c # cs) = run_calls (after (RecordUpdate rm (fst c) (snd c))) cs"

text \<open>
  The \<open>i\<close>-th call of a sequence: it runs on the manager left by the calls before it.
\<close>

definition call_at :: "RoundManager \<Rightarrow> (string \<times> go_int) list \<Rightarrow> nat \<Rightarrow> RecordResult" where
  "call_at rm cs i =
     RecordUpdate (run_calls rm (take i cs)) (fst (cs ! i)) (snd (cs ! i))"

text \<open>
  The managers a program can hold: the one \<open>NewRoundManager\<close> builds, and whatever a
  call of \<open>RecordUpdate\<close> or \<open>AdvanceRound\<close> leaves.
\<close>

inductive reachable :: "go_int \<Rightarrow> RoundManager \<Rightarrow> bool" for quorum :: go_int where
  reach_new: "reachable quorum (NewRoundManager quorum)"
| reach_record:
    "reachable quorum rm \<Longrightarrow> reachable quorum (after (RecordUpdate rm hospitalID roundID))"
| reach_advance: "reachable quorum rm \<Longrightarrow> reachable quorum (AdvanceRound rm)"

code_pred reachable .

text \<open>
  Two facts that hold of every manager built by \<open>NewRoundManager\<close> and driven by
  its methods, used as invariants below: the map only ever stores \<open>true\<close>, and an
  open round has fewer recorded participants than the quorum.
\<close>

definition all_true :: "(string, bool) fmap \<Rightarrow> bool" where
  "all_true m = (\<forall>h b. fmlookup m h = Some b \<longrightarrow> b)"

definition round_inv :: "RoundManager \<Rightarrow> bool" where
  "round_inv rm = (all_true (ReceivedClients rm)
     \<and> (State rm = RoundWaiting \<longrightarrow> int (len_clients (ReceivedClients rm)) < sint (ExpectedClients rm)))"

section \<open>The server: \<open>server/main.go\<close>\<close>

text \<open>
  The weights are \<open>float64\<close> values, and \<open>aggregateUpdates\<close> adds and divides them with
  Go's \<open>+\<close> and \<open>/\<close>, which round, overflow to an infinity and depend on the order of
  the operands. The server is therefore modelled over any type \<open>'f\<close> of values with the
  operations it uses, taken as a parameter: the zero a fresh slice holds, \<open>+\<close>, \<open>/\<close>,
  the conversion \<open>float64(n)\<close> of an \<open>int\<close>, and the test for a value that is neither an
  infinity nor a NaN, which are the values \<open>encoding/json\<close> can encode. What is proved
  for every such parameter holds for binary64.
\<close>

record 'f float64_ops =
  f_zero :: 'f
  f_add :: "'f \<Rightarrow> 'f \<Rightarrow> 'f"
  f_div :: "'f \<Rightarrow> 'f \<Rightarrow> 'f"
  f_of_int :: "int \<Rightarrow> 'f"
  f_finite :: "'f \<Rightarrow> bool"

text \<open>\<open>type Metadata struct\<close> and \<open>type UpdatePacket struct\<close>.\<close>

record 'f Metadata =
  HospitalID :: string
  DataSize :: go_int
  Loss :: 'f
  RoundID :: go_int
  ModelVersion :: go_int

record 'f UpdatePacket =
  Weights :: "'f list"
  Metadata :: "'f Metadata"

text \<open>
  The package-level variables. \<open>globalWeights\<close> is a slice that is \<open>nil\<close> until it is
  first assigned: \<open>None\<close> is \<open>nil\<close>, \<open>Some ws\<close> a slice made by \<open>make\<close> (never \<open>nil\<close>, also
  when its length is 0). Of \<open>receivedUpdates\<close> only the elements and the length are
  read, so \<open>nil\<close> and the empty slice are both \<open>[]\<close>. The two mutexes are left out:
  the model runs handlers and the aggregation one after the other.
\<close>

record 'f Server =
  receivedUpdates :: "'f UpdatePacket list"
  globalWeights :: "'f list option"
  currentVersion :: go_int
  roundManager :: RoundManager

definition initial_server :: "'f Server" where
  "initial_server =
     \<lparr>receivedUpdates = [], globalWeights = None, currentVersion = 0,
      roundManager = NewRoundManager 3\<rparr>"

text \<open>An index outside a slice is a run-time panic.\<close>

datatype panic = IndexOutOfRange

text \<open>
  The inner loop of \<open>aggregateUpdates\<close>,
  \<^verbatim>\<open>for i, w := range packet.Weights { sumWeights[i] += w }\<close>,
  from index \<open>i\<close> on. \<open>sumWeights\<close> is a local variable.
\<close>

fun add_weights ::
  "'f float64_ops \<Rightarrow> nat \<Rightarrow> 'f list \<Rightarrow> 'f list \<Rightarrow> panic + 'f list" where
  "add_weights fl i [] sumWeights = Inr sumWeights"
| "add_weights fl i (w # ws) sumWeights =
     (if i < length sumWeights
      then add_weights fl (Suc i) ws (sumWeights[i := f_add fl (sumWeights ! i) w])
      else Inl IndexOutOfRange)"

text \<open>The outer loop, \<^verbatim>\<open>for _, packet := range receivedUpdates\<close>.\<close>

fun sum_packets ::
  "'f float64_ops \<Rightarrow> 'f UpdatePacket list \<Rightarrow> 'f list \<Rightarrow> panic + 'f list" where
  "sum_packets fl [] sumWeights = Inr sumWeights"
| "sum_packets fl (packet # rest) sumWeights =
     (case add_weights fl 0 (Weights packet) sumWeights of
        Inl p \<Rightarrow> Inl p
      | Inr sumWeights' \<Rightarrow> sum_packets fl rest sumWeights')"

text \<open>
  Lines 126 to 141 of \<open>aggregateUpdates\<close>, which read the buffer and write local
  variables only: the sums, started as \<open>numWeights\<close> zeros where \<open>numWeights\<close> is the
  length of the first packet's vector, then the division of each sum by
  \<open>float64(len(receivedUpdates))\<close>. \<open>receivedUpdates[0]\<close> panics on an empty buffer.
\<close>

definition average_weights :: "'f float64_ops \<Rightarrow> 'f UpdatePacket list \<Rightarrow> panic + 'f list" where
  "average_weights fl updates =
     (case updates of
        [] \<Rightarrow> Inl IndexOutOfRange
      | first # _ \<Rightarrow>
          let numWeights = length (Weights first);
              sumWeights = replicate numWeights (f_zero fl)
          in case sum_packets fl updates sumWeights of
               Inl p \<Rightarrow> Inl p
             | Inr sumWeights' \<Rightarrow>
                 let numUpdates = f_of_int fl (int (length updates))
                 in Inr (map (\<lambda>total. f_div fl total numUpdates) sumWeights'))"

text \<open>
  \<open>aggregateUpdates\<close>. The result is the server as the call leaves it, and the panic if
  the call ended in one: a panic in this goroutine ends the process, and the server
  beside it is what the variables held at that moment. The call returns at once with
  fewer than 3 buffered updates; otherwise it averages, and only then assigns
  \<open>globalWeights\<close>, increments \<open>currentVersion\<close>, clears the buffer and advances the
  round, in this order.
\<close>

definition aggregateUpdates :: "'f float64_ops \<Rightarrow> 'f Server \<Rightarrow> 'f Server \<times> panic option" where
  "aggregateUpdates fl s =
     (if length (receivedUpdates s) < 3 then (s, None)
      else case average_weights fl (receivedUpdates s) of
             Inl p \<Rightarrow> (s, Some p)
           | Inr newWeights \<Rightarrow>
               let s1 = s\<lparr>globalWeights := Some newWeights\<rparr>;
                   s2 = s1\<lparr>currentVersion := currentVersion s1 + 1\<rparr>;
                   s3 = s2\<lparr>receivedUpdates := []\<rparr>;
                   s4 = s3\<lparr>roundManager := AdvanceRound (roundManager s3)\<rparr>
               in (s4, None))"

text \<open>
  \<open>handleGetGlobalModel\<close>. With \<open>globalWeights\<close> still \<open>nil\<close> the answer is 404. Otherwise
  the handler encodes the weights and the version with \<open>json.NewEncoder(w).Encode\<close> and
  drops the error: \<open>Encode\<close> builds the whole text before it writes any of it and
  refuses an infinity or a NaN, so the answer is then status 200 with an empty body.
\<close>

datatype 'f model_reply = NotFound | EmptyBody | Model "'f list" go_int

definition handleGetGlobalModel :: "'f float64_ops \<Rightarrow> 'f Server \<Rightarrow> 'f model_reply" where
  "handleGetGlobalModel fl s =
     (case globalWeights s of
        None \<Rightarrow> NotFound
      | Some ws \<Rightarrow>
          if list_all (f_finite fl) ws then Model ws (currentVersion s) else EmptyBody)"

text \<open>
  \<open>handleSubmitUpdate\<close> on a decoded POST body, up to the start of the aggregation
  (lines 62 to 102): the validation, \<open>RecordUpdate\<close>, the append. \<open>Stored count quorumMet\<close>
  says that the packet is in the buffer, which now holds \<open>count\<close> packets, and whether
  the handler has started \<open>aggregateUpdates\<close> in a goroutine of its own, which is the
  event \<open>Aggregate\<close> below.
\<close>

datatype submit_outcome = BadRequest | Conflict | Stored nat bool

definition handleSubmitUpdate ::
  "'f Server \<Rightarrow> 'f UpdatePacket \<Rightarrow> 'f Server \<times> submit_outcome" where
  "handleSubmitUpdate s packet =
     (if length (Weights packet) = 0
         \<or> HospitalID (Metadata packet) = []
         \<or> sint (DataSize (Metadata packet)) \<le> 0
      then (s, BadRequest)
      else
        let res = RecordUpdate (roundManager s)
                    (HospitalID (Metadata packet)) (RoundID (Metadata packet))
        in if \<not> accepted res then (s\<lparr>roundManager := after res\<rparr>, Conflict)
           else
             let s1 = s\<lparr>roundManager := after res,
                        receivedUpdates := receivedUpdates s @ [packet]\<rparr>;
                 count = length (receivedUpdates s1)
             in (s1, Stored count (quorumMet res)))"

text \<open>
  The rest of the handler (lines 105 to 113) answers a stored packet with
  \<open>total_received\<close>, \<open>round_received\<close>, \<open>round_state\<close> and \<open>quorum_met\<close>. The two middle
  fields come from a call of \<open>Status\<close> made after the aggregation was started, so they
  are read from the server as it is by then, \<open>later\<close>, which may be in the next round.
\<close>

definition submit_reply :: "'f Server \<Rightarrow> nat \<Rightarrow> bool \<Rightarrow> nat \<times> nat \<times> RoundState \<times> bool" where
  "submit_reply later count quorum_met =
     (case Status (roundManager later) of
        (current, expected, received, state) \<Rightarrow> (count, received, state, quorum_met))"

text \<open>
  What the server does, one event after the other: a submission is handled, or a
  started aggregation runs. A run stops at a panic, with the server as the panic
  left it.
\<close>

datatype 'f event = Submit "'f UpdatePacket" | Aggregate

fun step :: "'f float64_ops \<Rightarrow> 'f Server \<Rightarrow> 'f event \<Rightarrow> 'f Server \<times> panic option" where
  "step fl s (Submit packet) = (fst (handleSubmitUpdate s packet), None)"
| "step fl s Aggregate = aggregateUpdates fl s"

fun run :: "'f float64_ops \<Rightarrow> 'f Server \<Rightarrow> 'f event list \<Rightarrow> 'f Server \<times> panic option" where
  "run fl s [] = (s, None)"
| "run fl s (e # es) =
     (case step fl s e of
        (s', None) \<Rightarrow> run fl s' es
      | (s', Some p) \<Rightarrow> (s', Some p))"

text \<open>
  The snapshot a call of \<open>aggregateUpdates\<close> publishes on lines 144 to 147, if it gets
  there, and the snapshots published during a run, oldest first.
\<close>

definition published :: "'f float64_ops \<Rightarrow> 'f Server \<Rightarrow> ('f list \<times> go_int) option" where
  "published fl s =
     (if length (receivedUpdates s) < 3 then None
      else case average_weights fl (receivedUpdates s) of
             Inl p \<Rightarrow> None
           | Inr newWeights \<Rightarrow> Some (newWeights, currentVersion s + 1))"

fun published_by :: "'f float64_ops \<Rightarrow> 'f Server \<Rightarrow> 'f event \<Rightarrow> ('f list \<times> go_int) list" where
  "published_by fl s (Submit packet) = []"
| "published_by fl s Aggregate =
     (case published fl s of None \<Rightarrow> [] | Some snap \<Rightarrow> [snap])"

fun snapshots :: "'f float64_ops \<Rightarrow> 'f Server \<Rightarrow> 'f event list \<Rightarrow> ('f list \<times> go_int) list" where
  "snapshots fl s [] = []"
| "snapshots fl s (e # es) =
     (case step fl s e of
        (s', None) \<Rightarrow> published_by fl s e @ snapshots fl s' es
      | (s', Some p) \<Rightarrow> [])"

text \<open>
  A packet as \<open>client_simulator.go\<close> builds it: data size 100, loss 0.5, model version
  0. The simulator sends \<open>H1\<close>, \<open>H2\<close>, \<open>H3\<close> with the weights \<open>[10, 20]\<close>, \<open>[20, 40]\<close>,
  \<open>[30, 60]\<close> for round 0; the hospital, the round, the weights and the loss are
  parameters here.
\<close>

definition simulator_packet :: "string \<Rightarrow> go_int \<Rightarrow> 'f list \<Rightarrow> 'f \<Rightarrow> 'f UpdatePacket" where
  "simulator_packet hospital roundID ws loss =
     \<lparr>Weights = ws,
      Metadata = \<lparr>HospitalID = hospital, DataSize = 100, Loss = loss, RoundID = roundID,
                  ModelVersion = 0\<rparr>\<rparr>"

section \<open>Binary64 arithmetic\<close>

text \<open>
  The operations of the server are a parameter, and what is proved below about the
  server is proved for every choice of them. This section defines the choice Go makes,
  on which the concrete runs are evaluated.

  Go's \<open>float64\<close> is IEEE 754 binary64. \<open>Num r\<close> is the finite number \<open>r\<close>, with
  \<open>Num 0\<close> the positive zero, and stands for a \<open>float64\<close> only when \<open>r\<close> is one of the
  binary64 numbers; \<open>NegZero\<close> is the negative zero. One NaN stands for all of them.
\<close>

datatype float64 = Num real | NegZero | PosInf | NegInf | NaN

text \<open>
  Rounding as Go's arithmetic does it: to the nearest binary64 number, a tie going
  to the one with the even significand. \<open>binade x\<close> is the exponent of \<open>x\<close>, not below
  that of the subnormal numbers; the binary64 numbers around \<open>x\<close> are the multiples of
  \<open>2 powi (binade x - 52)\<close>. A result of magnitude \<open>2 ^ 1024\<close> or more is an infinity, and
  a negative number rounded to zero is the negative zero.
\<close>

definition round_even :: "real \<Rightarrow> int" where
  "round_even x =
     (let f = \<lfloor>x\<rfloor>
      in if x - of_int f < 1 / 2 then f
         else if 1 / 2 < x - of_int f then f + 1
         else if even f then f else f + 1)"

definition binade :: "real \<Rightarrow> int" where
  "binade x = max \<lfloor>log 2 \<bar>x\<bar>\<rfloor> (- 1022)"

definition nearest64 :: "real \<Rightarrow> real" where
  "nearest64 x =
     (if x = 0 then 0
      else let ulp = 2 powi (binade x - 52)
           in of_int (round_even (x / ulp)) * ulp)"

definition round64 :: "real \<Rightarrow> float64" where
  "round64 x =
     (let y = nearest64 x
      in if 2 ^ 1024 \<le> y then PosInf
         else if y \<le> - (2 ^ 1024) then NegInf
         else if y = 0 \<and> x < 0 then NegZero
         else Num y)"

text \<open>
  The value and the sign bit of an operand, and what \<open>encoding/json\<close> takes.
\<close>

fun finite_value :: "float64 \<Rightarrow> real" where
  "finite_value (Num r) = r"
| "finite_value x = 0"

fun negative :: "float64 \<Rightarrow> bool" where
  "negative (Num r) = (r < 0)"
| "negative NegZero = True"
| "negative NegInf = True"
| "negative x = False"

fun b64_finite :: "float64 \<Rightarrow> bool" where
  "b64_finite (Num r) = True"
| "b64_finite NegZero = True"
| "b64_finite x = False"

text \<open>
  \<open>x + y\<close> and \<open>x / y\<close>: the IEEE 754 rules for NaN, the infinities and the zeros, and
  otherwise the exact result, rounded. An exact sum of zero is the positive zero unless
  both operands are the negative zero.
\<close>

fun b64_add :: "float64 \<Rightarrow> float64 \<Rightarrow> float64" where
  "b64_add NaN y = NaN"
| "b64_add x NaN = NaN"
| "b64_add PosInf NegInf = NaN"
| "b64_add NegInf PosInf = NaN"
| "b64_add PosInf y = PosInf"
| "b64_add x PosInf = PosInf"
| "b64_add NegInf y = NegInf"
| "b64_add x NegInf = NegInf"
| "b64_add NegZero NegZero = NegZero"
| "b64_add x y =
     (if finite_value x + finite_value y = 0 then Num 0
      else round64 (finite_value x + finite_value y))"

fun b64_div :: "float64 \<Rightarrow> float64 \<Rightarrow> float64" where
  "b64_div NaN y = NaN"
| "b64_div x NaN = NaN"
| "b64_div PosInf PosInf = NaN"
| "b64_div PosInf NegInf = NaN"
| "b64_div NegInf PosInf = NaN"
| "b64_div NegInf NegInf = NaN"
| "b64_div PosInf y = (if negative y then NegInf else PosInf)"
| "b64_div NegInf y = (if negative y then PosInf else NegInf)"
| "b64_div x PosInf = (if negative x then NegZero else Num 0)"
| "b64_div x NegInf = (if negative x then Num 0 else NegZero)"
| "b64_div x y =
     (if finite_value y = 0
      then (if finite_value x = 0 then NaN
            else if negative x \<noteq> negative y then NegInf else PosInf)
      else if finite_value x = 0
      then (if negative x \<noteq> negative y then NegZero else Num 0)
      else round64 (finite_value x / finite_value y))"

text \<open>
  The operations of the server, as binary64 has them. \<open>float64(n)\<close> rounds the integer.
\<close>

definition binary64 :: "float64 float64_ops" where
  "binary64 =
     \<lparr>f_zero = Num 0, f_add = b64_add, f_div = b64_div,
      f_of_int = (\<lambda>n. round64 (of_int n)), f_finite = b64_finite\<rparr>"

text \<open>
  The largest power of two among the binary64 numbers; the JSON text
  \<open>8.98846567431158e+307\<close> decodes to it.
\<close>

definition huge :: real where
  "huge = 2 ^ 1023"

section \<open>Properties of the round manager\<close>

lemma RecordUpdate_rejected_after:
  "\<not> accepted (RecordUpdate rm h r) \<Longrightarrow> after (RecordUpdate rm h r) = rm"
  by (simp add: RecordUpdate_def Let_def split: if_splits)

text \<open>
  C4: a submission whose round identifier differs from the manager's current round,
  whether smaller or larger, is rejected, whatever the state and the recorded
  participants.
\<close>

theorem RecordUpdate_round_mismatch:
  "roundID \<noteq> CurrentRound rm \<Longrightarrow> accepted (RecordUpdate rm hospitalID roundID) = False"
  by (simp add: RecordUpdate_def)

theorem RecordUpdate_round_mismatch_witness:
  "(5 :: go_int) \<noteq> CurrentRound (AdvanceRound (NewRoundManager 3))
   \<and> accepted (RecordUpdate (AdvanceRound (NewRoundManager 3)) ''H1'' 5) = False
   \<and> (0 :: go_int) \<noteq> CurrentRound (AdvanceRound (NewRoundManager 3))
   \<and> accepted (RecordUpdate (AdvanceRound (NewRoundManager 3)) ''H1'' 0) = False"
  using RecordUpdate_round_mismatch [of 5 "AdvanceRound (NewRoundManager 3)" "''H1''"]
    RecordUpdate_round_mismatch [of 0 "AdvanceRound (NewRoundManager 3)" "''H1''"]
  by (simp add: NewRoundManager_def AdvanceRound_def)

text \<open>
  C9: a rejected call changes nothing: the current round, the recorded participants,
  the state and the quorum size are those of the manager before the call.
\<close>

theorem RecordUpdate_rejected_unchanged:
  "\<not> accepted (RecordUpdate rm hospitalID roundID) \<Longrightarrow>
     after (RecordUpdate rm hospitalID roundID) = rm
     \<and> CurrentRound (after (RecordUpdate rm hospitalID roundID)) = CurrentRound rm
     \<and> ReceivedClients (after (RecordUpdate rm hospitalID roundID)) = ReceivedClients rm
     \<and> State (after (RecordUpdate rm hospitalID roundID)) = State rm
     \<and> ExpectedClients (after (RecordUpdate rm hospitalID roundID)) = ExpectedClients rm"
  by (simp add: RecordUpdate_rejected_after)

theorem RecordUpdate_rejected_unchanged_witness:
  "\<not> accepted (RecordUpdate (NewRoundManager 3) ''H1'' 7)
   \<and> after (RecordUpdate (NewRoundManager 3) ''H1'' 7) = NewRoundManager 3"
  using RecordUpdate_rejected_unchanged [of "NewRoundManager 3" "''H1''" 7]
  by (simp add: RecordUpdate_def NewRoundManager_def)

lemma sint_succ:
  assumes "sint (x :: go_int) < 2 ^ 63 - 1"
  shows "sint (x + 1) = sint x + 1"
proof -
  have "sint (x + 1) = signed_take_bit 63 (sint x + 1)"
    by (simp add: sint_word_ariths)
  moreover have "- (2 ^ 63) \<le> sint x"
    using sint_ge [of x] by simp
  ultimately show ?thesis
    using assms by (simp add: signed_take_bit_int_eq_self)
qed

lemma RecordUpdate_accepted_iff:
  "accepted (RecordUpdate rm h r) \<longleftrightarrow>
     r = CurrentRound rm \<and> State rm = RoundWaiting \<and> \<not> lookup_client (ReceivedClients rm) h"
  by (simp add: RecordUpdate_def Let_def)

lemma RecordUpdate_quorumMet_accepted:
  "quorumMet (RecordUpdate rm h r) \<Longrightarrow> accepted (RecordUpdate rm h r)"
  by (simp add: RecordUpdate_def Let_def split: if_splits)

lemma RecordUpdate_expected [simp]:
  "ExpectedClients (after (RecordUpdate rm h r)) = ExpectedClients rm"
  by (simp add: RecordUpdate_def Let_def)

lemma RecordUpdate_round [simp]:
  "CurrentRound (after (RecordUpdate rm h r)) = CurrentRound rm"
  by (simp add: RecordUpdate_def Let_def)

lemma RecordUpdate_accepted_clients:
  "accepted (RecordUpdate rm h r) \<Longrightarrow>
     ReceivedClients (after (RecordUpdate rm h r)) = fmupd h True (ReceivedClients rm)"
  by (simp add: RecordUpdate_def Let_def split: if_splits)

lemma RecordUpdate_accepted_quorum:
  "accepted (RecordUpdate rm h r) \<Longrightarrow>
     quorumMet (RecordUpdate rm h r) =
       (sint (ExpectedClients rm) \<le> int (len_clients (fmupd h True (ReceivedClients rm))))"
  by (simp add: RecordUpdate_def Let_def split: if_splits)

lemma RecordUpdate_accepted_state:
  "accepted (RecordUpdate rm h r) \<Longrightarrow>
     State (after (RecordUpdate rm h r)) =
       (if quorumMet (RecordUpdate rm h r) then RoundAggregating else RoundWaiting)"
  by (simp add: RecordUpdate_def Let_def split: if_splits)

lemma len_clients_fresh:
  assumes "all_true m" and "\<not> lookup_client m h"
  shows "len_clients (fmupd h True m) = Suc (len_clients m)"
proof -
  have "fmlookup m h = None"
    using assms by (cases "fmlookup m h") (auto simp: all_true_def lookup_client_def)
  then have "h |\<notin>| fmdom m"
    by (simp add: fmdom_notI)
  then show ?thesis
    by (simp add: len_clients_def fcard_finsert_disjoint)
qed

lemma all_true_fmupd: "all_true m \<Longrightarrow> all_true (fmupd h True m)"
  by (auto simp: all_true_def)

lemma all_true_fmempty: "all_true fmempty"
  by (simp add: all_true_def)

lemma round_inv_RecordUpdate:
  assumes "round_inv rm"
  shows "round_inv (after (RecordUpdate rm h r))"
proof (cases "accepted (RecordUpdate rm h r)")
  case False
  then show ?thesis using assms by (simp add: RecordUpdate_rejected_after)
next
  case True
  then show ?thesis
    using assms
    by (simp add: round_inv_def RecordUpdate_accepted_clients RecordUpdate_accepted_state
        RecordUpdate_accepted_quorum all_true_fmupd)
qed

lemma run_calls_append: "run_calls rm (xs @ ys) = run_calls (run_calls rm xs) ys"
  by (induction xs arbitrary: rm) simp_all

lemma round_inv_run_calls: "round_inv rm \<Longrightarrow> round_inv (run_calls rm cs)"
  by (induction cs arbitrary: rm) (simp_all add: round_inv_RecordUpdate)

lemma run_calls_expected [simp]: "ExpectedClients (run_calls rm cs) = ExpectedClients rm"
  by (induction cs arbitrary: rm) simp_all

lemma run_calls_round [simp]: "CurrentRound (run_calls rm cs) = CurrentRound rm"
  by (induction cs arbitrary: rm) simp_all

lemma RecordUpdate_closed:
  "State rm \<noteq> RoundWaiting \<Longrightarrow> RecordUpdate rm h r = \<lparr>accepted = False, quorumMet = False, after = rm\<rparr>"
  by (simp add: RecordUpdate_def)

lemma run_calls_closed: "State rm \<noteq> RoundWaiting \<Longrightarrow> run_calls rm cs = rm"
  by (induction cs arbitrary: rm) (simp_all add: RecordUpdate_closed)

lemma take_split:
  assumes "i < j" and "j \<le> length cs"
  shows "take j cs = take i cs @ cs ! i # take (j - Suc i) (drop (Suc i) cs)"
proof -
  have "take j cs = take i (take j cs) @ drop i (take j cs)"
    by (rule append_take_drop_id [symmetric])
  also have "take i (take j cs) = take i cs"
    using assms by (simp add: min_def)
  also have "drop i (take j cs) = take (j - i) (drop i cs)"
    by (simp add: drop_take)
  also have "drop i cs = cs ! i # drop (Suc i) cs"
    using assms by (simp add: Cons_nth_drop_Suc)
  also have "take (j - i) (cs ! i # drop (Suc i) cs) = cs ! i # take (j - Suc i) (drop (Suc i) cs)"
  proof -
    have "j - i = Suc (j - Suc i)"
      using assms by simp
    then show ?thesis
      by (simp only: take_Suc_Cons)
  qed
  finally show ?thesis .
qed

lemma run_calls_after_call:
  assumes "i < j" and "j \<le> length cs"
  shows "run_calls rm (take j cs) =
         run_calls (after (call_at rm cs i)) (take (j - Suc i) (drop (Suc i) cs))"
  by (simp add: take_split [OF assms] run_calls_append call_at_def)

lemma call_after_quorum:
  assumes "quorumMet (call_at rm cs i)" and "i < j" and "j < length cs"
  shows "call_at rm cs j = \<lparr>accepted = False, quorumMet = False, after = after (call_at rm cs i)\<rparr>"
proof -
  have acc: "accepted (call_at rm cs i)"
    using assms(1) by (simp add: call_at_def RecordUpdate_quorumMet_accepted)
  then have st: "State (after (call_at rm cs i)) \<noteq> RoundWaiting"
    using assms(1) by (simp add: call_at_def RecordUpdate_accepted_state)
  have "run_calls rm (take j cs) = after (call_at rm cs i)"
    using assms st by (simp add: run_calls_after_call run_calls_closed)
  then show ?thesis
    using st by (simp add: call_at_def [of rm cs j] RecordUpdate_closed)
qed


lemma len_clients_empty [simp]: "len_clients fmempty = 0"
  by (simp add: len_clients_def fcard_fempty)

lemma round_start_inv:
  assumes "1 \<le> sint (ExpectedClients rm)" and "ReceivedClients rm = fmempty"
  shows "round_inv rm"
  using assms by (simp add: round_inv_def all_true_fmempty)

lemma RecordUpdate_accepted_count:
  assumes "round_inv rm" and "accepted (RecordUpdate rm h r)"
  shows "len_clients (ReceivedClients (after (RecordUpdate rm h r))) =
         Suc (len_clients (ReceivedClients rm))"
  using assms
  by (simp add: RecordUpdate_accepted_clients len_clients_fresh round_inv_def
      RecordUpdate_accepted_iff)

lemma RecordUpdate_quorum_step:
  assumes "round_inv rm" and "accepted (RecordUpdate rm h r)"
  shows "quorumMet (RecordUpdate rm h r) \<longleftrightarrow>
         int (len_clients (ReceivedClients rm)) = sint (ExpectedClients rm) - 1"
proof -
  have "State rm = RoundWaiting" and "\<not> lookup_client (ReceivedClients rm) h"
    using assms(2) by (simp_all add: RecordUpdate_accepted_iff)
  then have "int (len_clients (ReceivedClients rm)) < sint (ExpectedClients rm)"
    and "len_clients (fmupd h True (ReceivedClients rm)) = Suc (len_clients (ReceivedClients rm))"
    using assms(1) by (simp_all add: round_inv_def len_clients_fresh)
  then show ?thesis
    using assms(2) by (auto simp: RecordUpdate_accepted_quorum)
qed

text \<open>
  C1: take a manager at the start of a round (no participant recorded, state
  \<open>RoundWaiting\<close>, quorum at least 1) and any sequence of \<open>RecordUpdate\<close> calls.
  An accepted call that finds \<open>quorum - 1\<close> participants recorded returns
  \<open>quorumMet = true\<close>, leaves \<open>quorum\<close> participants recorded and moves the state to
  \<open>RoundAggregating\<close>; every other accepted call returns \<open>quorumMet = false\<close> and
  leaves the round open; and when a call returns \<open>quorumMet = true\<close>, no other call
  of the sequence does, and every later call is rejected.
\<close>

theorem quorum_reached_exactly_once:
  assumes "1 \<le> sint (ExpectedClients rm)"
    and "ReceivedClients rm = fmempty"
    and "State rm = RoundWaiting"
    and "i < length cs"
  shows "(accepted (call_at rm cs i)
            \<and> int (len_clients (ReceivedClients (run_calls rm (take i cs))))
                = sint (ExpectedClients rm) - 1
          \<longrightarrow> quorumMet (call_at rm cs i)
              \<and> State (after (call_at rm cs i)) = RoundAggregating
              \<and> int (len_clients (ReceivedClients (after (call_at rm cs i))))
                  = sint (ExpectedClients rm))
       \<and> (accepted (call_at rm cs i)
            \<and> int (len_clients (ReceivedClients (run_calls rm (take i cs))))
                \<noteq> sint (ExpectedClients rm) - 1
          \<longrightarrow> \<not> quorumMet (call_at rm cs i)
              \<and> State (after (call_at rm cs i)) = RoundWaiting)
       \<and> (quorumMet (call_at rm cs i)
          \<longrightarrow> accepted (call_at rm cs i)
              \<and> (\<forall>j < length cs. j \<noteq> i \<longrightarrow> \<not> quorumMet (call_at rm cs j))
              \<and> (\<forall>j < length cs. i < j \<longrightarrow> \<not> accepted (call_at rm cs j)))"
proof -
  let ?pre = "run_calls rm (take i cs)"
  let ?h = "fst (cs ! i)" and ?r = "snd (cs ! i)"
  have call: "call_at rm cs i = RecordUpdate ?pre ?h ?r"
    by (simp add: call_at_def)
  have inv: "round_inv ?pre"
    using assms(1,2) by (simp add: round_start_inv round_inv_run_calls)
  have q: "ExpectedClients ?pre = ExpectedClients rm"
    by simp
  have step: "accepted (call_at rm cs i) \<Longrightarrow>
      quorumMet (call_at rm cs i) \<longleftrightarrow>
      int (len_clients (ReceivedClients ?pre)) = sint (ExpectedClients rm) - 1"
    using RecordUpdate_quorum_step [OF inv, of ?h ?r] by (simp add: call q)
  have count: "accepted (call_at rm cs i) \<Longrightarrow>
      len_clients (ReceivedClients (after (call_at rm cs i))) =
      Suc (len_clients (ReceivedClients ?pre))"
    using RecordUpdate_accepted_count [OF inv, of ?h ?r] by (simp add: call)
  have state: "accepted (call_at rm cs i) \<Longrightarrow>
      State (after (call_at rm cs i)) =
      (if quorumMet (call_at rm cs i) then RoundAggregating else RoundWaiting)"
    by (simp add: call RecordUpdate_accepted_state)
  have first: "accepted (call_at rm cs i)
        \<and> int (len_clients (ReceivedClients ?pre)) = sint (ExpectedClients rm) - 1
      \<longrightarrow> quorumMet (call_at rm cs i)
          \<and> State (after (call_at rm cs i)) = RoundAggregating
          \<and> int (len_clients (ReceivedClients (after (call_at rm cs i))))
              = sint (ExpectedClients rm)"
    using step count state by simp
  have other: "accepted (call_at rm cs i)
        \<and> int (len_clients (ReceivedClients ?pre)) \<noteq> sint (ExpectedClients rm) - 1
      \<longrightarrow> \<not> quorumMet (call_at rm cs i)
          \<and> State (after (call_at rm cs i)) = RoundWaiting"
    using step state by simp
  have only: "\<forall>j < length cs. j \<noteq> i \<longrightarrow> \<not> quorumMet (call_at rm cs j)"
    if qm: "quorumMet (call_at rm cs i)"
  proof (intro allI impI)
    fix j assume j: "j < length cs" "j \<noteq> i"
    show "\<not> quorumMet (call_at rm cs j)"
    proof (cases "i < j")
      case True
      then show ?thesis
        using call_after_quorum [OF qm True j(1)] by simp
    next
      case False
      then have ji: "j < i" using j(2) by simp
      show ?thesis
      proof
        assume "quorumMet (call_at rm cs j)"
        then have "\<not> accepted (call_at rm cs i)"
          using call_after_quorum [OF _ ji assms(4)] by simp
        then show False
          using qm by (simp add: call RecordUpdate_quorumMet_accepted)
      qed
    qed
  qed
  have later: "\<forall>j < length cs. i < j \<longrightarrow> \<not> accepted (call_at rm cs j)"
    if qm: "quorumMet (call_at rm cs i)"
    using call_after_quorum [OF qm] by simp
  have acc: "quorumMet (call_at rm cs i) \<Longrightarrow> accepted (call_at rm cs i)"
    by (simp add: call RecordUpdate_quorumMet_accepted)
  show ?thesis
    using first other only later acc by blast
qed


lemma reachable_inv:
  assumes "1 \<le> sint quorum" and "reachable quorum rm"
  shows "ExpectedClients rm = quorum
       \<and> (State rm = RoundWaiting \<longrightarrow>
            int (len_clients (ReceivedClients rm)) < sint quorum)"
  using assms(2)
proof (induction rule: reachable.induct)
  case reach_new
  then show ?case
    using assms(1) by (simp add: NewRoundManager_def)
next
  case (reach_record rm hospitalID roundID)
  show ?case
  proof (cases "accepted (RecordUpdate rm hospitalID roundID)")
    case False
    then show ?thesis
      using reach_record.IH by (simp add: RecordUpdate_rejected_after)
  next
    case True
    then show ?thesis
      using reach_record.IH
      by (simp add: RecordUpdate_accepted_clients RecordUpdate_accepted_state
          RecordUpdate_accepted_quorum)
  qed
next
  case (reach_advance rm)
  then show ?case
    using assms(1) by (simp add: AdvanceRound_def)
qed

text \<open>
  C10: for a manager built with a quorum of at least 1, every manager reachable by
  \<open>RecordUpdate\<close> and \<open>AdvanceRound\<close> calls that is in state \<open>RoundWaiting\<close> has
  fewer recorded participants than the quorum.
\<close>

theorem waiting_below_quorum:
  assumes "1 \<le> sint quorum" and "reachable quorum rm" and "State rm = RoundWaiting"
  shows "int (len_clients (ReceivedClients rm)) < sint quorum"
  using reachable_inv [OF assms(1,2)] assms(3) by simp

lemma lookup_client_kept:
  "lookup_client (ReceivedClients rm) h \<Longrightarrow>
     lookup_client (ReceivedClients (after (RecordUpdate rm h' r))) h"
  by (simp add: RecordUpdate_def Let_def lookup_client_def)

lemma lookup_client_run_calls:
  "lookup_client (ReceivedClients rm) h \<Longrightarrow> lookup_client (ReceivedClients (run_calls rm cs)) h"
  by (induction cs arbitrary: rm) (simp_all add: lookup_client_kept)

lemma RecordUpdate_records:
  "accepted (RecordUpdate rm h r) \<Longrightarrow> lookup_client (ReceivedClients (after (RecordUpdate rm h r))) h"
  by (simp add: RecordUpdate_accepted_clients lookup_client_def)

text \<open>
  C5: a hospital that is recorded in the current round is rejected when it submits
  again, whatever round identifier it sends and however many other calls of
  \<open>RecordUpdate\<close> came in between; in particular a hospital whose call was accepted is
  rejected at every later position of the sequence.
\<close>

theorem duplicate_rejected:
  "(lookup_client (ReceivedClients rm) hospitalID
      \<longrightarrow> \<not> accepted (RecordUpdate (run_calls rm cs) hospitalID roundID))
   \<and> (accepted (RecordUpdate rm hospitalID roundID')
      \<longrightarrow> \<not> accepted (RecordUpdate
            (run_calls (after (RecordUpdate rm hospitalID roundID')) cs) hospitalID roundID))"
  by (simp add: RecordUpdate_accepted_iff lookup_client_run_calls RecordUpdate_records)

text \<open>
  C6: \<open>AdvanceRound\<close> sets the current round to its previous value plus 1 (Go's
  \<open>++\<close> on \<open>int\<close>; read as a signed number the round grows by exactly 1 below the
  largest \<open>int\<close>), empties the set of recorded participants, sets the state to
  \<open>RoundWaiting\<close> and keeps the quorum size.
\<close>

theorem AdvanceRound_effect:
  "CurrentRound (AdvanceRound rm) = CurrentRound rm + 1
   \<and> (sint (CurrentRound rm) < 2 ^ 63 - 1 \<longrightarrow>
        sint (CurrentRound (AdvanceRound rm)) = sint (CurrentRound rm) + 1)
   \<and> ReceivedClients (AdvanceRound rm) = fmempty
   \<and> len_clients (ReceivedClients (AdvanceRound rm)) = 0
   \<and> State (AdvanceRound rm) = RoundWaiting
   \<and> ExpectedClients (AdvanceRound rm) = ExpectedClients rm"
  by (simp add: AdvanceRound_def sint_succ)

subsection \<open>The theorems on concrete runs\<close>

lemmas eval_rm = RecordUpdate_def NewRoundManager_def Let_def lookup_client_def
  len_clients_def fcard_finsert_if fcard_fempty AdvanceRound_def

lemma first_call: "RecordUpdate (NewRoundManager 2) ''H1'' 0 =
   \<lparr>accepted = True, quorumMet = False, after = \<lparr>CurrentRound = 0, ExpectedClients = 2,
      ReceivedClients = fmupd ''H1'' True fmempty, State = RoundWaiting\<rparr>\<rparr>"
  by (simp add: eval_rm)

lemma second_call: "RecordUpdate \<lparr>CurrentRound = 0, ExpectedClients = 2,
      ReceivedClients = fmupd ''H1'' True fmempty, State = RoundWaiting\<rparr> ''H2'' 0 =
   \<lparr>accepted = True, quorumMet = True, after = \<lparr>CurrentRound = 0, ExpectedClients = 2,
      ReceivedClients = fmupd ''H2'' True (fmupd ''H1'' True fmempty), State = RoundAggregating\<rparr>\<rparr>"
  by (simp add: eval_rm)

theorem waiting_below_quorum_witness:
  "1 \<le> sint (3 :: go_int)
   \<and> reachable 3 (after (RecordUpdate (NewRoundManager 3) ''H1'' 0))
   \<and> State (after (RecordUpdate (NewRoundManager 3) ''H1'' 0)) = RoundWaiting
   \<and> int (len_clients (ReceivedClients (after (RecordUpdate (NewRoundManager 3) ''H1'' 0)))) < sint (3 :: go_int)"
proof -
  have r: "reachable 3 (after (RecordUpdate (NewRoundManager 3) ''H1'' 0))"
    by (intro reach_record reach_new)
  have s: "State (after (RecordUpdate (NewRoundManager 3) ''H1'' 0)) = RoundWaiting"
    by (simp add: eval_rm)
  have q: "1 \<le> sint (3 :: go_int)"
    by simp
  show ?thesis
    using waiting_below_quorum [OF q r s] q r s by simp
qed

theorem AdvanceRound_effect_witness:
  "sint (CurrentRound (NewRoundManager 3)) < 2 ^ 63 - 1
   \<and> sint (CurrentRound (AdvanceRound (NewRoundManager 3))) = 1"
  using AdvanceRound_effect [of "NewRoundManager 3"]
  by (simp add: NewRoundManager_def)

theorem quorum_reached_exactly_once_witness:
  "1 \<le> sint (ExpectedClients (NewRoundManager 2))
   \<and> ReceivedClients (NewRoundManager 2) = fmempty
   \<and> State (NewRoundManager 2) = RoundWaiting
   \<and> 1 < length [(''H1'', 0 :: go_int), (''H2'', 0), (''H3'', 0)]
   \<and> accepted (call_at (NewRoundManager 2) [(''H1'', 0), (''H2'', 0), (''H3'', 0)] 1)
   \<and> int (len_clients (ReceivedClients
        (run_calls (NewRoundManager 2) (take 1 [(''H1'', 0), (''H2'', 0), (''H3'', 0)]))))
      = sint (ExpectedClients (NewRoundManager 2)) - 1
   \<and> quorumMet (call_at (NewRoundManager 2) [(''H1'', 0), (''H2'', 0), (''H3'', 0)] 1)
   \<and> State (after (call_at (NewRoundManager 2) [(''H1'', 0), (''H2'', 0), (''H3'', 0)] 1))
      = RoundAggregating
   \<and> \<not> quorumMet (call_at (NewRoundManager 2) [(''H1'', 0), (''H2'', 0), (''H3'', 0)] 0)
   \<and> \<not> accepted (call_at (NewRoundManager 2) [(''H1'', 0), (''H2'', 0), (''H3'', 0)] 2)"
proof -
  let ?rm = "NewRoundManager 2"
  let ?cs = "[(''H1'', 0 :: go_int), (''H2'', 0), (''H3'', 0)]"
  have h1: "1 \<le> sint (ExpectedClients ?rm)"
    and h2: "ReceivedClients ?rm = fmempty"
    and h3: "State ?rm = RoundWaiting"
    by (simp_all add: NewRoundManager_def)
  have h4: "1 < length ?cs"
    by simp
  have pre: "run_calls ?rm (take 1 ?cs) = \<lparr>CurrentRound = 0, ExpectedClients = 2,
      ReceivedClients = fmupd ''H1'' True fmempty, State = RoundWaiting\<rparr>"
    by (simp add: first_call)
  have acc: "accepted (call_at ?rm ?cs 1)"
    by (simp add: call_at_def first_call second_call)
  have cnt: "int (len_clients (ReceivedClients (run_calls ?rm (take 1 ?cs))))
      = sint (ExpectedClients ?rm) - 1"
    unfolding pre by (simp add: eval_rm)
  note main = quorum_reached_exactly_once [OF h1 h2 h3 h4]
  from main acc cnt have q: "quorumMet (call_at ?rm ?cs 1)"
    and st: "State (after (call_at ?rm ?cs 1)) = RoundAggregating"
    by blast+
  from main q have only: "\<forall>j < length ?cs. j \<noteq> 1 \<longrightarrow> \<not> quorumMet (call_at ?rm ?cs j)"
    and later: "\<forall>j < length ?cs. 1 < j \<longrightarrow> \<not> accepted (call_at ?rm ?cs j)"
    by blast+
  from only have n0: "\<not> quorumMet (call_at ?rm ?cs 0)"
    by simp
  from later have n2: "\<not> accepted (call_at ?rm ?cs 2)"
    by simp
  show ?thesis
    using h1 h2 h3 h4 acc cnt q st n0 n2 by blast
qed

theorem duplicate_rejected_witness:
  "accepted (RecordUpdate (NewRoundManager 2) ''H1'' 0)
   \<and> lookup_client (ReceivedClients (after (RecordUpdate (NewRoundManager 2) ''H1'' 0))) ''H1''
   \<and> \<not> accepted (RecordUpdate
        (run_calls (after (RecordUpdate (NewRoundManager 2) ''H1'' 0)) [(''H2'', 0)]) ''H1'' 0)
   \<and> \<not> accepted (RecordUpdate
        (run_calls (after (RecordUpdate (NewRoundManager 2) ''H1'' 0)) []) ''H1'' 0)"
proof -
  have a: "accepted (RecordUpdate (NewRoundManager 2) ''H1'' 0)"
    by (simp add: first_call)
  have l: "lookup_client (ReceivedClients (after (RecordUpdate (NewRoundManager 2) ''H1'' 0))) ''H1''"
    by (simp add: first_call lookup_client_def)
  show ?thesis
    using a l
      duplicate_rejected [of "NewRoundManager 2" "''H1''" "[(''H2'', 0)]" 0 0]
      duplicate_rejected [of "after (RecordUpdate (NewRoundManager 2) ''H1'' 0)" "''H1''" "[]" 0 0]
    by blast
qed

section \<open>Properties of the server\<close>

subsection \<open>Binary64 numbers are rounded to themselves\<close>

lemma round_even_of_int: "round_even (of_int n) = n"
  by (simp add: round_even_def)

lemma binade_bound:
  assumes "m \<noteq> 0" and "\<bar>m\<bar> < 2 ^ 53" and "- 1074 \<le> j"
  shows "binade (of_int m * 2 powi j) - 52 \<le> j"
proof -
  let ?x = "of_int m * 2 powi j :: real"
  have pos: "0 < \<bar>?x\<bar>"
    using assms(1) by simp
  have "\<bar>?x\<bar> = \<bar>of_int m\<bar> * 2 powi j"
    by (simp add: abs_mult)
  also have "\<dots> < 2 ^ 53 * 2 powi j"
    using assms(2) by (simp add: of_int_abs [symmetric] del: of_int_abs)
  also have "\<dots> = 2 powi (53 + j)"
    by (simp add: power_int_add)
  also have "\<dots> = 2 powr (of_int (53 + j))"
    by (rule powr_real_of_int' [symmetric]) simp_all
  finally have "\<bar>?x\<bar> < 2 powr (of_int (53 + j))" .
  then have "log 2 \<bar>?x\<bar> < of_int (53 + j)"
    using pos by (simp add: log_less_iff)
  then have "\<lfloor>log 2 \<bar>?x\<bar>\<rfloor> < 53 + j"
    by (simp add: floor_less_iff)
  then show ?thesis
    using assms(3) by (simp add: binade_def)
qed

lemma nearest64_representable:
  assumes "\<bar>m\<bar> < 2 ^ 53" and "- 1074 \<le> j"
  shows "nearest64 (of_int m * 2 powi j) = of_int m * 2 powi j"
proof (cases "m = 0")
  case True
  then show ?thesis by (simp add: nearest64_def)
next
  case False
  let ?x = "of_int m * 2 powi j :: real"
  let ?k = "binade ?x - 52"
  have k: "?k \<le> j"
    using binade_bound [OF False assms] .
  have "?x / 2 powi ?k = of_int m * 2 powi (j - ?k)"
    by (simp add: power_int_diff)
  also have "2 powi (j - ?k) = (2 :: real) ^ nat (j - ?k)"
    using k by (simp add: power_int_def)
  also have "of_int m * (2 :: real) ^ nat (j - ?k) = of_int (m * 2 ^ nat (j - ?k))"
    by simp
  finally have q: "?x / 2 powi ?k = of_int (m * 2 ^ nat (j - ?k))" .
  have "of_int (round_even (?x / 2 powi ?k)) * 2 powi ?k = ?x / 2 powi ?k * 2 powi ?k"
    unfolding q round_even_of_int ..
  also have "\<dots> = ?x"
    by simp
  finally show ?thesis
    using False by (simp add: nearest64_def Let_def)
qed

lemma round64_int:
  assumes "\<bar>m\<bar> < 2 ^ 53"
  shows "round64 (of_int m) = Num (of_int m)"
proof -
  have n: "nearest64 (of_int m) = of_int m"
    using nearest64_representable [OF assms, of 0] by simp
  have "\<bar>of_int m :: real\<bar> < 2 ^ 53"
    using assms by (simp add: of_int_abs [symmetric] del: of_int_abs)
  moreover have "(2 :: real) ^ 53 < 2 ^ 1024"
    by (rule power_strict_increasing) simp_all
  ultimately have "\<bar>of_int m :: real\<bar> < 2 ^ 1024"
    by linarith
  then show ?thesis
    by (auto simp: round64_def n Let_def)
qed

lemma round64_numeral:
  "numeral n < (2 :: int) ^ 53 \<Longrightarrow> round64 (numeral n) = Num (numeral n)"
  using round64_int [of "numeral n"] by simp

lemma round64_zero: "round64 0 = Num 0"
  using round64_int [of 0] by simp

lemma round64_one: "round64 1 = Num 1"
  using round64_int [of 1] by simp

lemma round64_huge: "round64 huge = Num huge"
proof -
  have "nearest64 (of_int 1 * 2 powi 1023) = of_int 1 * 2 powi 1023"
    by (rule nearest64_representable) simp_all
  then have n: "nearest64 huge = huge"
    by (simp add: huge_def power_int_def)
  have "huge < 2 ^ 1024" and "0 < huge"
    unfolding huge_def by (simp_all add: power_strict_increasing)
  then show ?thesis
    by (auto simp: round64_def n Let_def)
qed

lemma round64_overflow: "round64 (huge + huge) = PosInf"
proof -
  have "nearest64 (of_int 1 * 2 powi 1024) = of_int 1 * 2 powi 1024"
    by (rule nearest64_representable) simp_all
  then have p: "nearest64 (2 ^ 1024) = 2 ^ 1024"
    by (simp add: power_int_def)
  have e: "huge + huge = 2 ^ 1024"
    unfolding huge_def by simp
  show ?thesis
    unfolding e using p by (simp add: round64_def Let_def)
qed


subsection \<open>The aggregation\<close>

lemma add_weights_panics:
  "i \<le> length sumWeights \<Longrightarrow> length sumWeights < i + length ws \<Longrightarrow>
     add_weights fl i ws sumWeights = Inl IndexOutOfRange"
  by (induction ws arbitrary: i sumWeights) simp_all

lemma add_weights_in_range:
  "i + length ws \<le> length sumWeights \<Longrightarrow>
     add_weights fl i ws sumWeights =
       Inr (map (\<lambda>j. if i \<le> j \<and> j < i + length ws
                        then f_add fl (sumWeights ! j) (ws ! (j - i))
                        else sumWeights ! j) [0..<length sumWeights])"
proof (induction ws arbitrary: i sumWeights)
  case Nil
  show ?case by (auto intro!: nth_equalityI)
next
  case (Cons w ws)
  let ?u = "sumWeights[i := f_add fl (sumWeights ! i) w]"
  let ?new = "\<lambda>j. if Suc i \<le> j \<and> j < Suc i + length ws
                    then f_add fl (?u ! j) (ws ! (j - Suc i)) else ?u ! j"
  let ?old = "\<lambda>j. if i \<le> j \<and> j < i + length (w # ws)
                    then f_add fl (sumWeights ! j) ((w # ws) ! (j - i)) else sumWeights ! j"
  have i: "i < length sumWeights"
    using Cons.prems by simp
  have "Suc i + length ws \<le> length ?u"
    using Cons.prems by simp
  then have "add_weights fl (Suc i) ws ?u = Inr (map ?new [0..<length ?u])"
    by (rule Cons.IH)
  moreover have "map ?new [0..<length ?u] = map ?old [0..<length sumWeights]"
  proof (rule nth_equalityI)
    show "length (map ?new [0..<length ?u]) = length (map ?old [0..<length sumWeights])"
      by simp
  next
    fix j
    assume "j < length (map ?new [0..<length ?u])"
    then have j: "j < length sumWeights"
      by simp
    show "map ?new [0..<length ?u] ! j = map ?old [0..<length sumWeights] ! j"
    proof (cases "j = i")
      case True
      then show ?thesis using i by simp
    next
      case False
      then show ?thesis
        using j by (auto simp: nth_Cons' Suc_diff_le)
    qed
  qed
  ultimately show ?case
    using i by simp
qed

lemma add_weights_length:
  "add_weights fl i ws sumWeights = Inr sumWeights' \<Longrightarrow>
     length sumWeights' = length sumWeights"
  by (induction ws arbitrary: i sumWeights) (auto split: if_splits)

lemma add_weights_same_length:
  "length ws = length sumWeights \<Longrightarrow>
     add_weights fl 0 ws sumWeights =
       Inr (map (\<lambda>j. f_add fl (sumWeights ! j) (ws ! j)) [0..<length sumWeights])"
  by (simp add: add_weights_in_range)

lemma sum_packets_length:
  "sum_packets fl ps sumWeights = Inr sumWeights' \<Longrightarrow>
     length sumWeights' = length sumWeights"
proof (induction ps arbitrary: sumWeights)
  case Nil
  then show ?case by simp
next
  case (Cons p ps)
  then show ?case
    by (auto split: sum.splits dest: add_weights_length)
qed

lemma sum_packets_panics:
  "\<exists>p \<in> set ps. length sumWeights < length (Weights p) \<Longrightarrow>
     sum_packets fl ps sumWeights = Inl IndexOutOfRange"
proof (induction ps arbitrary: sumWeights)
  case Nil
  then show ?case by simp
next
  case (Cons p ps)
  show ?case
  proof (cases "length sumWeights < length (Weights p)")
    case True
    then show ?thesis by (simp add: add_weights_panics)
  next
    case False
    then obtain sumWeights' where
      s: "add_weights fl 0 (Weights p) sumWeights = Inr sumWeights'"
      by (simp add: add_weights_in_range)
    then have "length sumWeights' = length sumWeights"
      by (rule add_weights_length)
    then have "\<exists>q \<in> set ps. length sumWeights' < length (Weights q)"
      using Cons.prems False by auto
    then show ?thesis
      using s Cons.IH by simp
  qed
qed

lemma sum_packets_succeeds:
  "\<forall>p \<in> set ps. length (Weights p) \<le> length sumWeights \<Longrightarrow>
     \<exists>sumWeights'. sum_packets fl ps sumWeights = Inr sumWeights'"
proof (induction ps arbitrary: sumWeights)
  case Nil
  then show ?case by simp
next
  case (Cons p ps)
  then obtain sumWeights' where
    s: "add_weights fl 0 (Weights p) sumWeights = Inr sumWeights'"
    by (simp add: add_weights_in_range)
  then have "length sumWeights' = length sumWeights"
    by (rule add_weights_length)
  then show ?case
    using s Cons by simp
qed

lemma sum_packets_same_length:
  "\<forall>p \<in> set ps. length (Weights p) = length sumWeights \<Longrightarrow>
     sum_packets fl ps sumWeights =
       Inr (map (\<lambda>j. foldl (f_add fl) (sumWeights ! j) (map (\<lambda>p. Weights p ! j) ps))
              [0..<length sumWeights])"
proof (induction ps arbitrary: sumWeights)
  case Nil
  then show ?case by (simp add: map_nth)
next
  case (Cons p ps)
  let ?s = "map (\<lambda>j. f_add fl (sumWeights ! j) (Weights p ! j)) [0..<length sumWeights]"
  have a: "add_weights fl 0 (Weights p) sumWeights = Inr ?s"
    using Cons.prems by (simp add: add_weights_same_length)
  have "\<forall>q \<in> set ps. length (Weights q) = length ?s"
    using Cons.prems by simp
  then have "sum_packets fl ps ?s =
      Inr (map (\<lambda>j. foldl (f_add fl) (?s ! j) (map (\<lambda>q. Weights q ! j) ps))
             [0..<length ?s])"
    by (rule Cons.IH)
  then show ?case
    using a by simp
qed

lemma average_weights_same_length:
  assumes "updates \<noteq> []" and "\<forall>p \<in> set updates. length (Weights p) = n"
  shows "average_weights fl updates =
         Inr (map (\<lambda>j. f_div fl
                          (foldl (f_add fl) (f_zero fl) (map (\<lambda>p. Weights p ! j) updates))
                          (f_of_int fl (int (length updates))))
                [0..<n])"
proof -
  obtain first rest where u: "updates = first # rest"
    using assms(1) by (cases updates) auto
  have n: "length (Weights first) = n"
    using assms(2) u by simp
  have "\<forall>p \<in> set updates. length (Weights p) = length (replicate n (f_zero fl))"
    using assms(2) by simp
  then have "sum_packets fl updates (replicate n (f_zero fl)) =
      Inr (map (\<lambda>j. foldl (f_add fl) (replicate n (f_zero fl) ! j)
                      (map (\<lambda>p. Weights p ! j) updates))
             [0..<length (replicate n (f_zero fl))])"
    by (rule sum_packets_same_length)
  then have "sum_packets fl updates (replicate n (f_zero fl)) =
      Inr (map (\<lambda>j. foldl (f_add fl) (f_zero fl) (map (\<lambda>p. Weights p ! j) updates))
             [0..<n])"
    by simp
  then show ?thesis
    unfolding average_weights_def u [symmetric]
    by (simp add: u n Let_def comp_def)
qed

lemma average_weights_panics_iff:
  assumes "updates \<noteq> []"
  shows "(\<exists>p. average_weights fl updates = Inl p) \<longleftrightarrow>
         (\<exists>p \<in> set updates. length (Weights (hd updates)) < length (Weights p))"
proof -
  obtain first rest where u: "updates = first # rest"
    using assms by (cases updates) auto
  let ?z = "replicate (length (Weights first)) (f_zero fl)"
  show ?thesis
  proof (cases "\<exists>p \<in> set updates. length (Weights first) < length (Weights p)")
    case True
    then have "\<exists>p \<in> set updates. length ?z < length (Weights p)"
      by simp
    then have "sum_packets fl updates ?z = Inl IndexOutOfRange"
      by (rule sum_packets_panics)
    then show ?thesis
      using True unfolding average_weights_def by (simp add: u Let_def)
  next
    case False
    then have "\<forall>p \<in> set updates. length (Weights p) \<le> length ?z"
      by (simp add: not_less)
    then obtain total where "sum_packets fl updates ?z = Inr total"
      using sum_packets_succeeds by blast
    then show ?thesis
      using False unfolding average_weights_def by (simp add: u Let_def)
  qed
qed

lemma average_weights_length:
  "average_weights fl updates = Inr newWeights \<Longrightarrow>
     length newWeights = length (Weights (hd updates))"
  by (cases updates)
    (auto simp: average_weights_def Let_def simp del: sum_packets.simps
      split: sum.splits dest: sum_packets_length)


lemma aggregateUpdates_publishes:
  assumes "3 \<le> length (receivedUpdates s)"
    and "average_weights fl (receivedUpdates s) = Inr newWeights"
  shows "aggregateUpdates fl s =
           (s\<lparr>globalWeights := Some newWeights,
               currentVersion := currentVersion s + 1,
               receivedUpdates := [],
               roundManager := AdvanceRound (roundManager s)\<rparr>, None)"
  using assms by (simp add: aggregateUpdates_def)

text \<open>
  C3, as the code has it: with at least 3 updates buffered, and whatever the
  arithmetic, \<open>aggregateUpdates\<close> fails exactly when some update's weight vector is longer
  than the first update's. It then ends in an index-out-of-range panic and leaves the
  server as it found it: the global weights, the version and the round manager, and
  so the round, are unchanged. In every other case, also when shorter vectors are in
  the batch, it publishes a vector of the first update's length, increments the
  version, clears the buffer and advances the round.
\<close>

theorem aggregation_fails_iff_longer_vector:
  assumes "3 \<le> length (receivedUpdates s)"
  shows "((\<exists>p \<in> set (receivedUpdates s).
             length (Weights (hd (receivedUpdates s))) < length (Weights p))
          \<longrightarrow> aggregateUpdates fl s = (s, Some IndexOutOfRange)
              \<and> globalWeights (fst (aggregateUpdates fl s)) = globalWeights s
              \<and> currentVersion (fst (aggregateUpdates fl s)) = currentVersion s
              \<and> roundManager (fst (aggregateUpdates fl s)) = roundManager s)
       \<and> (\<not> (\<exists>p \<in> set (receivedUpdates s).
               length (Weights (hd (receivedUpdates s))) < length (Weights p))
          \<longrightarrow> (\<exists>newWeights.
                 length newWeights = length (Weights (hd (receivedUpdates s)))
                 \<and> aggregateUpdates fl s =
                     (s\<lparr>globalWeights := Some newWeights,
                         currentVersion := currentVersion s + 1,
                         receivedUpdates := [],
                         roundManager := AdvanceRound (roundManager s)\<rparr>, None)))"
proof -
  let ?longer = "\<exists>p \<in> set (receivedUpdates s).
      length (Weights (hd (receivedUpdates s))) < length (Weights p)"
  have ne: "receivedUpdates s \<noteq> []"
    using assms by auto
  note iff = average_weights_panics_iff [OF ne, of fl]
  have fails: "aggregateUpdates fl s = (s, Some IndexOutOfRange)" if l: ?longer
  proof -
    obtain p where "average_weights fl (receivedUpdates s) = Inl p"
      using iff l by blast
    then show ?thesis
      using assms by (cases p) (simp add: aggregateUpdates_def)
  qed
  have publishes: "\<exists>newWeights.
        length newWeights = length (Weights (hd (receivedUpdates s)))
        \<and> aggregateUpdates fl s =
            (s\<lparr>globalWeights := Some newWeights,
                currentVersion := currentVersion s + 1,
                receivedUpdates := [],
                roundManager := AdvanceRound (roundManager s)\<rparr>, None)"
    if nl: "\<not> ?longer"
  proof (cases "average_weights fl (receivedUpdates s)")
    case (Inl p)
    then show ?thesis
      using iff nl by blast
  next
    case (Inr newWeights)
    show ?thesis
      using average_weights_length [OF Inr] aggregateUpdates_publishes [OF assms Inr]
      by blast
  qed
  show ?thesis
    using fails publishes by auto
qed

text \<open>
  C7, as the code has it: with at least 3 updates buffered whose weight vectors all
  have length \<open>n\<close>, \<open>aggregateUpdates\<close> publishes the vector that holds, in each of the \<open>n\<close>
  dimensions, the \<open>float64\<close> sum of the batch's values in that dimension, added to zero
  in the order of the buffer, divided by the \<open>float64\<close> number of updates: the mean as
  \<open>float64\<close> arithmetic computes it. On the simulator's vectors \<open>[10, 20]\<close>, \<open>[20, 40]\<close>,
  \<open>[30, 60]\<close>, buffered by its three submissions, binary64 gives \<open>[20, 40]\<close>.
\<close>

theorem aggregation_is_float64_mean:
  assumes "3 \<le> length (receivedUpdates s)"
    and "\<forall>p \<in> set (receivedUpdates s). length (Weights p) = n"
  shows "aggregateUpdates fl s =
           (s\<lparr>globalWeights :=
                 Some (map (\<lambda>j. f_div fl
                                  (foldl (f_add fl) (f_zero fl)
                                     (map (\<lambda>p. Weights p ! j) (receivedUpdates s)))
                                  (f_of_int fl (int (length (receivedUpdates s)))))
                        [0..<n]),
               currentVersion := currentVersion s + 1,
               receivedUpdates := [],
               roundManager := AdvanceRound (roundManager s)\<rparr>, None)
       \<and> aggregateUpdates binary64
            \<lparr>receivedUpdates = [simulator_packet ''H1'' 0 [Num 10, Num 20] (Num (1 / 2)),
                                simulator_packet ''H2'' 0 [Num 20, Num 40] (Num (1 / 2)),
                                simulator_packet ''H3'' 0 [Num 30, Num 60] (Num (1 / 2))],
              globalWeights = None, currentVersion = 0,
              roundManager = \<lparr>CurrentRound = 0, ExpectedClients = 3,
                                ReceivedClients = fmupd ''H3'' True (fmupd ''H2'' True (fmupd ''H1'' True fmempty)),
                                State = RoundAggregating\<rparr>\<rparr> =
           (\<lparr>receivedUpdates = [], globalWeights = Some [Num 20, Num 40], currentVersion = 1,
             roundManager = \<lparr>CurrentRound = 1, ExpectedClients = 3,
                              ReceivedClients = fmempty, State = RoundWaiting\<rparr>\<rparr>, None)"
proof -
  have "receivedUpdates s \<noteq> []"
    using assms(1) by auto
  then have general: "aggregateUpdates fl s =
           (s\<lparr>globalWeights :=
                 Some (map (\<lambda>j. f_div fl
                                  (foldl (f_add fl) (f_zero fl)
                                     (map (\<lambda>p. Weights p ! j) (receivedUpdates s)))
                                  (f_of_int fl (int (length (receivedUpdates s)))))
                        [0..<n]),
               currentVersion := currentVersion s + 1,
               receivedUpdates := [],
               roundManager := AdvanceRound (roundManager s)\<rparr>, None)"
    using aggregateUpdates_publishes [OF assms(1) average_weights_same_length [OF _ assms(2)]]
    by simp
  have simulator: "aggregateUpdates binary64
            \<lparr>receivedUpdates = [simulator_packet ''H1'' 0 [Num 10, Num 20] (Num (1 / 2)),
                                simulator_packet ''H2'' 0 [Num 20, Num 40] (Num (1 / 2)),
                                simulator_packet ''H3'' 0 [Num 30, Num 60] (Num (1 / 2))],
              globalWeights = None, currentVersion = 0,
              roundManager = \<lparr>CurrentRound = 0, ExpectedClients = 3,
                                ReceivedClients = fmupd ''H3'' True (fmupd ''H2'' True (fmupd ''H1'' True fmempty)),
                                State = RoundAggregating\<rparr>\<rparr> =
           (\<lparr>receivedUpdates = [], globalWeights = Some [Num 20, Num 40], currentVersion = 1,
             roundManager = \<lparr>CurrentRound = 1, ExpectedClients = 3,
                              ReceivedClients = fmempty, State = RoundWaiting\<rparr>\<rparr>, None)"
    by (simp add: aggregateUpdates_def average_weights_def simulator_packet_def Let_def
        AdvanceRound_def binary64_def round64_numeral round64_zero)
  show ?thesis
    using general simulator by (rule conjI)
qed

subsection \<open>Runs of the server\<close>

lemma submit_keeps_model:
  "globalWeights (fst (handleSubmitUpdate s packet)) = globalWeights s
   \<and> currentVersion (fst (handleSubmitUpdate s packet)) = currentVersion s"
  by (simp add: handleSubmitUpdate_def Let_def)

lemma aggregate_without_publish:
  "published fl s = None \<Longrightarrow> fst (aggregateUpdates fl s) = s"
  by (auto simp: aggregateUpdates_def published_def split: if_splits sum.splits)

lemma aggregate_with_publish:
  "published fl s = Some snap \<Longrightarrow>
     snd (aggregateUpdates fl s) = None
     \<and> globalWeights (fst (aggregateUpdates fl s)) = Some (fst snap)
     \<and> currentVersion (fst (aggregateUpdates fl s)) = snd snap
     \<and> snd snap = currentVersion s + 1"
  by (auto simp: aggregateUpdates_def published_def split: if_splits sum.splits)

lemma step_model:
  "globalWeights (fst (step fl s e)) =
     (if published_by fl s e = [] then globalWeights s
      else Some (fst (last (published_by fl s e))))
   \<and> currentVersion (fst (step fl s e)) =
     (if published_by fl s e = [] then currentVersion s
      else snd (last (published_by fl s e)))"
proof (cases e)
  case (Submit packet)
  then show ?thesis
    using submit_keeps_model [of s packet] by simp
next
  case Aggregate
  show ?thesis
  proof (cases "published fl s")
    case None
    then show ?thesis
      using Aggregate aggregate_without_publish [of fl s] by simp
  next
    case (Some snap)
    then show ?thesis
      using Aggregate aggregate_with_publish [of fl s snap] by simp
  qed
qed

lemma step_panic_publishes_nothing:
  "snd (step fl s e) = Some p \<Longrightarrow> published_by fl s e = []"
  by (cases e)
    (auto simp: aggregateUpdates_def published_def Let_def split: if_splits sum.splits)

lemma run_model:
  "run fl s0 es = (s, p) \<Longrightarrow>
     globalWeights s =
       (if snapshots fl s0 es = [] then globalWeights s0
        else Some (fst (last (snapshots fl s0 es))))
     \<and> currentVersion s =
       (if snapshots fl s0 es = [] then currentVersion s0
        else snd (last (snapshots fl s0 es)))"
proof (induction es arbitrary: s0)
  case Nil
  then show ?case by simp
next
  case (Cons e es)
  obtain s1 q where st: "step fl s0 e = (s1, q)"
    by (cases "step fl s0 e")
  note sm = step_model [of fl s0 e]
  show ?case
  proof (cases q)
    case None
    then have r: "run fl s1 es = (s, p)"
      using Cons.prems st by simp
    show ?thesis
      using Cons.IH [OF r] sm st None by (simp split: if_splits)
  next
    case (Some x)
    then have "s = s1"
      using Cons.prems st by simp
    moreover have "published_by fl s0 e = []"
      using step_panic_publishes_nothing [of fl s0 e x] st Some by simp
    ultimately show ?thesis
      using sm st Some by simp
  qed
qed

text \<open>
  C8, as the code has it: after any run of the server that started from the initial
  state, reading the global model gives not-found exactly when no aggregation of the
  run has published a snapshot. Otherwise, when all weights of the last snapshot
  published are finite, the read gives its weights and version; when one of them is
  an infinity or a NaN, the read gives status 200 with an empty body.
\<close>

theorem read_global_model:
  assumes "run fl initial_server es = (s, None)"
  shows "(handleGetGlobalModel fl s = NotFound \<longleftrightarrow> snapshots fl initial_server es = [])
       \<and> (snapshots fl initial_server es \<noteq> []
            \<and> list_all (f_finite fl) (fst (last (snapshots fl initial_server es)))
          \<longrightarrow> handleGetGlobalModel fl s =
                Model (fst (last (snapshots fl initial_server es)))
                      (snd (last (snapshots fl initial_server es))))
       \<and> (snapshots fl initial_server es \<noteq> []
            \<and> \<not> list_all (f_finite fl) (fst (last (snapshots fl initial_server es)))
          \<longrightarrow> handleGetGlobalModel fl s = EmptyBody)"
  using run_model [OF assms]
  by (simp add: handleGetGlobalModel_def initial_server_def)


lemma step_version:
  "currentVersion (fst (step fl s e)) =
     currentVersion s + of_nat (length (published_by fl s e))
   \<and> (\<forall>snap \<in> set (published_by fl s e). snd snap = currentVersion s + 1)"
proof (cases e)
  case (Submit packet)
  then show ?thesis
    using submit_keeps_model [of s packet] by simp
next
  case Aggregate
  show ?thesis
  proof (cases "published fl s")
    case None
    then show ?thesis
      using Aggregate aggregate_without_publish [of fl s] by simp
  next
    case (Some snap)
    then show ?thesis
      using Aggregate aggregate_with_publish [of fl s snap] by simp
  qed
qed

lemma run_version:
  "run fl s0 es = (s, p) \<Longrightarrow>
     currentVersion s = currentVersion s0 + of_nat (length (snapshots fl s0 es))
     \<and> (\<forall>k < length (snapshots fl s0 es).
          snd (snapshots fl s0 es ! k) = currentVersion s0 + of_nat (Suc k))"
proof (induction es arbitrary: s0)
  case Nil
  then show ?case by simp
next
  case (Cons e es)
  obtain s1 q where st: "step fl s0 e = (s1, q)"
    by (cases "step fl s0 e")
  note sv = step_version [of fl s0 e]
  show ?case
  proof (cases q)
    case (Some x)
    then have "s = s1"
      using Cons.prems st by simp
    moreover have "published_by fl s0 e = []"
      using step_panic_publishes_nothing [of fl s0 e x] st Some by simp
    ultimately show ?thesis
      using sv st Some by simp
  next
    case None
    then have r: "run fl s1 es = (s, p)"
      using Cons.prems st by simp
    note ih = Cons.IH [OF r]
    have sn: "snapshots fl s0 (e # es) = published_by fl s0 e @ snapshots fl s1 es"
      using st None by simp
    have v: "currentVersion s =
        currentVersion s0 + of_nat (length (snapshots fl s0 (e # es)))"
      unfolding sn using sv ih st by (simp add: add.assoc)
    have "snd (snapshots fl s0 (e # es) ! k) = currentVersion s0 + of_nat (Suc k)"
      if k: "k < length (snapshots fl s0 (e # es))" for k
    proof (cases "k < length (published_by fl s0 e)")
      case True
      have "length (published_by fl s0 e) \<le> 1"
        by (cases e) (simp_all split: option.splits)
      then have "k = 0"
        using True by simp
      moreover have "published_by fl s0 e ! k \<in> set (published_by fl s0 e)"
        using True by simp
      ultimately show ?thesis
        unfolding sn using sv True by (simp add: nth_append)
    next
      case False
      then have "k - length (published_by fl s0 e) < length (snapshots fl s1 es)"
        using k unfolding sn by simp
      then have "snd (snapshots fl s1 es ! (k - length (published_by fl s0 e))) =
          currentVersion s1 + of_nat (Suc (k - length (published_by fl s0 e)))"
        using ih by blast
      then show ?thesis
        unfolding sn using False sv st by (simp add: nth_append add.assoc Suc_diff_le)
    qed
    then show ?thesis
      using v by blast
  qed
qed

text \<open>
  C2, as the code has it: the version is 0 before any aggregation and grows by 1 (Go's
  \<open>++\<close> on \<open>int\<close>) with every snapshot published, so after any run it is the number of
  snapshots published, and the \<open>k\<close>-th snapshot carries version \<open>k\<close>: 1 for the first, 2
  for the second.
\<close>

theorem version_counts_publishes:
  assumes "run fl initial_server es = (s, p)"
  shows "currentVersion (initial_server :: 'f Server) = 0
       \<and> currentVersion s = of_nat (length (snapshots fl initial_server es))
       \<and> (\<forall>k < length (snapshots fl initial_server es).
            snd (snapshots fl initial_server es ! k) = of_nat (Suc k))"
  using run_version [OF assms]
  by (simp add: initial_server_def)

subsection \<open>The theorems on concrete runs, in binary64\<close>

lemmas eval_server = handleSubmitUpdate_def simulator_packet_def initial_server_def
  aggregateUpdates_def average_weights_def published_def

lemmas eval_binary64 = binary64_def round64_numeral round64_zero round64_one

lemma simulator_run:
  "run binary64 initial_server
     [Submit (simulator_packet ''H1'' 0 [Num 10, Num 20] (Num (1 / 2))),
      Submit (simulator_packet ''H2'' 0 [Num 20, Num 40] (Num (1 / 2))),
      Submit (simulator_packet ''H3'' 0 [Num 30, Num 60] (Num (1 / 2))), Aggregate] =
   (\<lparr>receivedUpdates = [], globalWeights = Some [Num 20, Num 40], currentVersion = 1,
     roundManager = \<lparr>CurrentRound = 1, ExpectedClients = 3, ReceivedClients = fmempty,
                      State = RoundWaiting\<rparr>\<rparr>, None)"
  by (simp add: eval_server eval_rm eval_binary64)

lemma simulator_snapshots:
  "snapshots binary64 initial_server
     [Submit (simulator_packet ''H1'' 0 [Num 10, Num 20] (Num (1 / 2))),
      Submit (simulator_packet ''H2'' 0 [Num 20, Num 40] (Num (1 / 2))),
      Submit (simulator_packet ''H3'' 0 [Num 30, Num 60] (Num (1 / 2))), Aggregate] =
   [([Num 20, Num 40], 1)]"
  by (simp add: eval_server eval_rm eval_binary64)


lemma huge_facts: "huge \<noteq> 0" "2 * huge \<noteq> 0" "huge + huge \<noteq> 0"
  by (simp_all add: huge_def)

lemma round64_twice_huge: "round64 (2 * huge) = PosInf"
  using round64_overflow by simp

lemmas eval_huge = huge_facts round64_huge round64_overflow round64_twice_huge

lemma second_round_run:
  "run binary64
     (\<lparr>receivedUpdates = [], globalWeights = Some [Num 20, Num 40], currentVersion = 1,
     roundManager = \<lparr>CurrentRound = 1, ExpectedClients = 3, ReceivedClients = fmempty,
                      State = RoundWaiting\<rparr>\<rparr>)
     [Submit (simulator_packet ''H1'' 1 [Num 1, Num 2] (Num (1 / 2))),
      Submit (simulator_packet ''H2'' 1 [Num 3, Num 4] (Num (1 / 2))),
      Submit (simulator_packet ''H3'' 1 [Num 5, Num 6] (Num (1 / 2))),
      Aggregate] =
   (\<lparr>receivedUpdates = [], globalWeights = Some [Num 3, Num 4], currentVersion = 2,
     roundManager = \<lparr>CurrentRound = 2, ExpectedClients = 3, ReceivedClients = fmempty,
                      State = RoundWaiting\<rparr>\<rparr>, None)"
  by (simp add: eval_server eval_rm eval_binary64)

lemma second_round_snapshots:
  "snapshots binary64
     (\<lparr>receivedUpdates = [], globalWeights = Some [Num 20, Num 40], currentVersion = 1,
     roundManager = \<lparr>CurrentRound = 1, ExpectedClients = 3, ReceivedClients = fmempty,
                      State = RoundWaiting\<rparr>\<rparr>)
     [Submit (simulator_packet ''H1'' 1 [Num 1, Num 2] (Num (1 / 2))),
      Submit (simulator_packet ''H2'' 1 [Num 3, Num 4] (Num (1 / 2))),
      Submit (simulator_packet ''H3'' 1 [Num 5, Num 6] (Num (1 / 2))),
      Aggregate] =
   [([Num 3, Num 4], 2)]"
  by (simp add: eval_server eval_rm eval_binary64)

lemma run_append:
  "run fl s (es @ es') =
     (case run fl s es of (s', None) \<Rightarrow> run fl s' es' | (s', Some p) \<Rightarrow> (s', Some p))"
  by (induction es arbitrary: s) (simp_all split: prod.splits option.splits)

lemma snapshots_append:
  "run fl s es = (s', None) \<Longrightarrow>
     snapshots fl s (es @ es') = snapshots fl s es @ snapshots fl s' es'"
  by (induction es arbitrary: s) (auto split: prod.splits option.splits)

lemma overflow_run:
  "run binary64 initial_server
     [Submit (simulator_packet ''H1'' 0 [Num huge] (Num (1 / 2))),
      Submit (simulator_packet ''H2'' 0 [Num huge] (Num (1 / 2))),
      Submit (simulator_packet ''H3'' 0 [Num huge] (Num (1 / 2))),
      Aggregate] =
   (\<lparr>receivedUpdates = [], globalWeights = Some [PosInf], currentVersion = 1,
     roundManager = \<lparr>CurrentRound = 1, ExpectedClients = 3, ReceivedClients = fmempty,
                      State = RoundWaiting\<rparr>\<rparr>, None)"
  by (simp add: eval_server eval_rm eval_binary64 eval_huge)

lemma overflow_snapshots:
  "snapshots binary64 initial_server
     [Submit (simulator_packet ''H1'' 0 [Num huge] (Num (1 / 2))),
      Submit (simulator_packet ''H2'' 0 [Num huge] (Num (1 / 2))),
      Submit (simulator_packet ''H3'' 0 [Num huge] (Num (1 / 2))),
      Aggregate] =
   [([PosInf], 1)]"
  by (simp add: eval_server eval_rm eval_binary64 eval_huge)

text \<open>
  C2 as stated fails: after the simulator's three submissions and the aggregation they
  start, the first one of the server, the model is read with version 1, not 0.
\<close>

theorem version_zero_after_first_publish_counterexample:
  "handleGetGlobalModel binary64 (fst (run binary64 initial_server
     [Submit (simulator_packet ''H1'' 0 [Num 10, Num 20] (Num (1 / 2))),
      Submit (simulator_packet ''H2'' 0 [Num 20, Num 40] (Num (1 / 2))),
      Submit (simulator_packet ''H3'' 0 [Num 30, Num 60] (Num (1 / 2))),
      Aggregate]))
     = Model [Num 20, Num 40] 1
   \<and> handleGetGlobalModel binary64 (fst (run binary64 initial_server
     [Submit (simulator_packet ''H1'' 0 [Num 10, Num 20] (Num (1 / 2))),
      Submit (simulator_packet ''H2'' 0 [Num 20, Num 40] (Num (1 / 2))),
      Submit (simulator_packet ''H3'' 0 [Num 30, Num 60] (Num (1 / 2))),
      Aggregate]))
     \<noteq> Model [Num 20, Num 40] 0"
  unfolding simulator_run by (simp add: handleGetGlobalModel_def binary64_def)

theorem version_counts_publishes_witness:
  "run binary64 initial_server
     [Submit (simulator_packet ''H1'' 0 [Num 10, Num 20] (Num (1 / 2))),
      Submit (simulator_packet ''H2'' 0 [Num 20, Num 40] (Num (1 / 2))),
      Submit (simulator_packet ''H3'' 0 [Num 30, Num 60] (Num (1 / 2))),
      Aggregate,
      Submit (simulator_packet ''H1'' 1 [Num 1, Num 2] (Num (1 / 2))),
      Submit (simulator_packet ''H2'' 1 [Num 3, Num 4] (Num (1 / 2))),
      Submit (simulator_packet ''H3'' 1 [Num 5, Num 6] (Num (1 / 2))),
      Aggregate]
     = (\<lparr>receivedUpdates = [],
     globalWeights = Some [Num 3, Num 4], currentVersion = 2,
     roundManager = \<lparr>CurrentRound = 2, ExpectedClients = 3, ReceivedClients = fmempty,
                      State = RoundWaiting\<rparr>\<rparr>, None)
   \<and> snapshots binary64 initial_server
     [Submit (simulator_packet ''H1'' 0 [Num 10, Num 20] (Num (1 / 2))),
      Submit (simulator_packet ''H2'' 0 [Num 20, Num 40] (Num (1 / 2))),
      Submit (simulator_packet ''H3'' 0 [Num 30, Num 60] (Num (1 / 2))),
      Aggregate,
      Submit (simulator_packet ''H1'' 1 [Num 1, Num 2] (Num (1 / 2))),
      Submit (simulator_packet ''H2'' 1 [Num 3, Num 4] (Num (1 / 2))),
      Submit (simulator_packet ''H3'' 1 [Num 5, Num 6] (Num (1 / 2))),
      Aggregate]
     = [([Num 20, Num 40], 1), ([Num 3, Num 4], 2)]
   \<and> currentVersion
       (\<lparr>receivedUpdates = [],
     globalWeights = Some [Num 3, Num 4], currentVersion = 2,
     roundManager = \<lparr>CurrentRound = 2, ExpectedClients = 3, ReceivedClients = fmempty,
                      State = RoundWaiting\<rparr>\<rparr>)
     = of_nat (length (snapshots binary64 initial_server
     [Submit (simulator_packet ''H1'' 0 [Num 10, Num 20] (Num (1 / 2))),
      Submit (simulator_packet ''H2'' 0 [Num 20, Num 40] (Num (1 / 2))),
      Submit (simulator_packet ''H3'' 0 [Num 30, Num 60] (Num (1 / 2))),
      Aggregate,
      Submit (simulator_packet ''H1'' 1 [Num 1, Num 2] (Num (1 / 2))),
      Submit (simulator_packet ''H2'' 1 [Num 3, Num 4] (Num (1 / 2))),
      Submit (simulator_packet ''H3'' 1 [Num 5, Num 6] (Num (1 / 2))),
      Aggregate]))"
proof -
  let ?r1 = "[Submit (simulator_packet ''H1'' 0 [Num 10, Num 20] (Num (1 / 2))),
      Submit (simulator_packet ''H2'' 0 [Num 20, Num 40] (Num (1 / 2))),
      Submit (simulator_packet ''H3'' 0 [Num 30, Num 60] (Num (1 / 2))),
      Aggregate]"
  let ?r2 = "[Submit (simulator_packet ''H1'' 1 [Num 1, Num 2] (Num (1 / 2))),
      Submit (simulator_packet ''H2'' 1 [Num 3, Num 4] (Num (1 / 2))),
      Submit (simulator_packet ''H3'' 1 [Num 5, Num 6] (Num (1 / 2))),
      Aggregate]"
  let ?all = "[Submit (simulator_packet ''H1'' 0 [Num 10, Num 20] (Num (1 / 2))),
      Submit (simulator_packet ''H2'' 0 [Num 20, Num 40] (Num (1 / 2))),
      Submit (simulator_packet ''H3'' 0 [Num 30, Num 60] (Num (1 / 2))),
      Aggregate,
      Submit (simulator_packet ''H1'' 1 [Num 1, Num 2] (Num (1 / 2))),
      Submit (simulator_packet ''H2'' 1 [Num 3, Num 4] (Num (1 / 2))),
      Submit (simulator_packet ''H3'' 1 [Num 5, Num 6] (Num (1 / 2))),
      Aggregate]"
  let ?s2 = "\<lparr>receivedUpdates = [],
     globalWeights = Some [Num 3, Num 4], currentVersion = 2,
     roundManager = \<lparr>CurrentRound = 2, ExpectedClients = 3, ReceivedClients = fmempty,
                      State = RoundWaiting\<rparr>\<rparr>"
  have e: "?all = ?r1 @ ?r2"
    by simp
  have r: "run binary64 initial_server ?all = (?s2, None)"
    by (subst e) (simp only: run_append simulator_run second_round_run prod.case option.case)
  have sn: "snapshots binary64 initial_server ?all = [([Num 20, Num 40], 1), ([Num 3, Num 4], 2)]"
    by (subst e) (simp only: snapshots_append [OF simulator_run] simulator_snapshots
        second_round_snapshots, simp)
  show ?thesis
    using version_counts_publishes [OF r] r sn by blast
qed

text \<open>
  C3 as stated fails: the vectors \<open>[3, 6]\<close>, \<open>[3]\<close>, \<open>[3]\<close> do not have one length, every
  one of them passes the handler's validation, and the aggregation does not fail on
  them. It publishes \<open>[3, 2]\<close> as version 1 and advances to round 1.
\<close>

theorem mismatched_batch_published_counterexample:
  "run binary64 initial_server
     [Submit (simulator_packet ''H1'' 0 [Num 3, Num 6] (Num (1 / 2))),
      Submit (simulator_packet ''H2'' 0 [Num 3] (Num (1 / 2))),
      Submit (simulator_packet ''H3'' 0 [Num 3] (Num (1 / 2))),
      Aggregate] =
   (\<lparr>receivedUpdates = [],
     globalWeights = Some [Num 3, Num 2], currentVersion = 1,
     roundManager = \<lparr>CurrentRound = 1, ExpectedClients = 3, ReceivedClients = fmempty,
                      State = RoundWaiting\<rparr>\<rparr>, None)"
  by (simp add: eval_server eval_rm eval_binary64)

theorem aggregation_fails_iff_longer_vector_witness:
  "3 \<le> length (receivedUpdates
      (\<lparr>receivedUpdates = [simulator_packet ''H1'' 0 [Num 1] (Num (1 / 2)),
          simulator_packet ''H2'' 0 [Num 2, Num 3] (Num (1 / 2)),
          simulator_packet ''H3'' 0 [Num 4] (Num (1 / 2))],
       globalWeights = None, currentVersion = 0,
       roundManager = \<lparr>CurrentRound = 0, ExpectedClients = 3,
         ReceivedClients = fmupd ''H3'' True (fmupd ''H2'' True (fmupd ''H1'' True fmempty)),
         State = RoundAggregating\<rparr>\<rparr>))
   \<and> map (\<lambda>p. length (Weights p)) (receivedUpdates
      (\<lparr>receivedUpdates = [simulator_packet ''H1'' 0 [Num 1] (Num (1 / 2)),
          simulator_packet ''H2'' 0 [Num 2, Num 3] (Num (1 / 2)),
          simulator_packet ''H3'' 0 [Num 4] (Num (1 / 2))],
       globalWeights = None, currentVersion = 0,
       roundManager = \<lparr>CurrentRound = 0, ExpectedClients = 3,
         ReceivedClients = fmupd ''H3'' True (fmupd ''H2'' True (fmupd ''H1'' True fmempty)),
         State = RoundAggregating\<rparr>\<rparr>)) = [1, 2, 1]
   \<and> aggregateUpdates binary64
      (\<lparr>receivedUpdates = [simulator_packet ''H1'' 0 [Num 1] (Num (1 / 2)),
          simulator_packet ''H2'' 0 [Num 2, Num 3] (Num (1 / 2)),
          simulator_packet ''H3'' 0 [Num 4] (Num (1 / 2))],
       globalWeights = None, currentVersion = 0,
       roundManager = \<lparr>CurrentRound = 0, ExpectedClients = 3,
         ReceivedClients = fmupd ''H3'' True (fmupd ''H2'' True (fmupd ''H1'' True fmempty)),
         State = RoundAggregating\<rparr>\<rparr>)
     = (\<lparr>receivedUpdates = [simulator_packet ''H1'' 0 [Num 1] (Num (1 / 2)),
          simulator_packet ''H2'' 0 [Num 2, Num 3] (Num (1 / 2)),
          simulator_packet ''H3'' 0 [Num 4] (Num (1 / 2))],
       globalWeights = None, currentVersion = 0,
       roundManager = \<lparr>CurrentRound = 0, ExpectedClients = 3,
         ReceivedClients = fmupd ''H3'' True (fmupd ''H2'' True (fmupd ''H1'' True fmempty)),
         State = RoundAggregating\<rparr>\<rparr>, Some IndexOutOfRange)
   \<and> 3 \<le> length (receivedUpdates
      (\<lparr>receivedUpdates = [simulator_packet ''H1'' 0 [Num 3, Num 6] (Num (1 / 2)),
          simulator_packet ''H2'' 0 [Num 3] (Num (1 / 2)),
          simulator_packet ''H3'' 0 [Num 3] (Num (1 / 2))],
       globalWeights = None, currentVersion = 0,
       roundManager = \<lparr>CurrentRound = 0, ExpectedClients = 3,
         ReceivedClients = fmupd ''H3'' True (fmupd ''H2'' True (fmupd ''H1'' True fmempty)),
         State = RoundAggregating\<rparr>\<rparr>))
   \<and> map (\<lambda>p. length (Weights p)) (receivedUpdates
      (\<lparr>receivedUpdates = [simulator_packet ''H1'' 0 [Num 3, Num 6] (Num (1 / 2)),
          simulator_packet ''H2'' 0 [Num 3] (Num (1 / 2)),
          simulator_packet ''H3'' 0 [Num 3] (Num (1 / 2))],
       globalWeights = None, currentVersion = 0,
       roundManager = \<lparr>CurrentRound = 0, ExpectedClients = 3,
         ReceivedClients = fmupd ''H3'' True (fmupd ''H2'' True (fmupd ''H1'' True fmempty)),
         State = RoundAggregating\<rparr>\<rparr>)) = [2, 1, 1]
   \<and> snd (aggregateUpdates binary64
      (\<lparr>receivedUpdates = [simulator_packet ''H1'' 0 [Num 3, Num 6] (Num (1 / 2)),
          simulator_packet ''H2'' 0 [Num 3] (Num (1 / 2)),
          simulator_packet ''H3'' 0 [Num 3] (Num (1 / 2))],
       globalWeights = None, currentVersion = 0,
       roundManager = \<lparr>CurrentRound = 0, ExpectedClients = 3,
         ReceivedClients = fmupd ''H3'' True (fmupd ''H2'' True (fmupd ''H1'' True fmempty)),
         State = RoundAggregating\<rparr>\<rparr>)) = None"
proof -
  let ?s = "\<lparr>receivedUpdates = [simulator_packet ''H1'' 0 [Num 1] (Num (1 / 2)),
          simulator_packet ''H2'' 0 [Num 2, Num 3] (Num (1 / 2)),
          simulator_packet ''H3'' 0 [Num 4] (Num (1 / 2))],
       globalWeights = None, currentVersion = 0,
       roundManager = \<lparr>CurrentRound = 0, ExpectedClients = 3,
         ReceivedClients = fmupd ''H3'' True (fmupd ''H2'' True (fmupd ''H1'' True fmempty)),
         State = RoundAggregating\<rparr>\<rparr>"
  let ?t = "\<lparr>receivedUpdates = [simulator_packet ''H1'' 0 [Num 3, Num 6] (Num (1 / 2)),
          simulator_packet ''H2'' 0 [Num 3] (Num (1 / 2)),
          simulator_packet ''H3'' 0 [Num 3] (Num (1 / 2))],
       globalWeights = None, currentVersion = 0,
       roundManager = \<lparr>CurrentRound = 0, ExpectedClients = 3,
         ReceivedClients = fmupd ''H3'' True (fmupd ''H2'' True (fmupd ''H1'' True fmempty)),
         State = RoundAggregating\<rparr>\<rparr>"
  have h: "3 \<le> length (receivedUpdates ?s)"
    by simp
  have l: "map (\<lambda>p. length (Weights p)) (receivedUpdates ?s) = [1, 2, 1]"
    by (simp add: simulator_packet_def)
  have "\<exists>p \<in> set (receivedUpdates ?s).
      length (Weights (hd (receivedUpdates ?s))) < length (Weights p)"
    by (simp add: simulator_packet_def)
  then have fails: "aggregateUpdates binary64 ?s = (?s, Some IndexOutOfRange)"
    using aggregation_fails_iff_longer_vector [OF h, of binary64] by blast
  have h': "3 \<le> length (receivedUpdates ?t)"
    by simp
  have l': "map (\<lambda>p. length (Weights p)) (receivedUpdates ?t) = [2, 1, 1]"
    by (simp add: simulator_packet_def)
  have "\<not> (\<exists>p \<in> set (receivedUpdates ?t).
      length (Weights (hd (receivedUpdates ?t))) < length (Weights p))"
    by (simp add: simulator_packet_def)
  then obtain newWeights where "aggregateUpdates binary64 ?t =
      (?t\<lparr>globalWeights := Some newWeights, currentVersion := currentVersion ?t + 1,
          receivedUpdates := [], roundManager := AdvanceRound (roundManager ?t)\<rparr>, None)"
    using aggregation_fails_iff_longer_vector [OF h', of binary64] by blast
  then have publishes: "snd (aggregateUpdates binary64 ?t) = None"
    by simp
  show ?thesis
    using h l fails h' l' publishes by blast
qed

text \<open>
  C7 as stated fails, in two ways. A buffer of one update \<open>[10, 20]\<close> is a non-empty
  batch of vectors of one length, and \<open>aggregateUpdates\<close> returns without publishing
  anything. And on three updates \<open>[huge]\<close>, whose mean is \<open>huge\<close>, the second addition
  overflows and the vector published is \<open>[+Inf]\<close>.
\<close>

theorem mean_of_every_batch_counterexample:
  "run binary64 initial_server
     [Submit (simulator_packet ''H1'' 0 [Num 10, Num 20] (Num (1 / 2))),
      Aggregate] =
   (\<lparr>receivedUpdates = [simulator_packet ''H1'' 0 [Num 10, Num 20] (Num (1 / 2))],
     globalWeights = None, currentVersion = 0,
     roundManager = \<lparr>CurrentRound = 0, ExpectedClients = 3, ReceivedClients = fmupd ''H1'' True fmempty,
                      State = RoundWaiting\<rparr>\<rparr>, None)
   \<and> run binary64 initial_server
     [Submit (simulator_packet ''H1'' 0 [Num huge] (Num (1 / 2))),
      Submit (simulator_packet ''H2'' 0 [Num huge] (Num (1 / 2))),
      Submit (simulator_packet ''H3'' 0 [Num huge] (Num (1 / 2))),
      Aggregate] =
   (\<lparr>receivedUpdates = [],
     globalWeights = Some [PosInf], currentVersion = 1,
     roundManager = \<lparr>CurrentRound = 1, ExpectedClients = 3, ReceivedClients = fmempty,
                      State = RoundWaiting\<rparr>\<rparr>, None)"
  by (simp add: eval_server eval_rm eval_binary64 eval_huge)

theorem aggregation_is_float64_mean_witness:
  "3 \<le> length (receivedUpdates
       (\<lparr>receivedUpdates = [simulator_packet ''H1'' 0 [Num 10, Num 20] (Num (1 / 2)),
         simulator_packet ''H2'' 0 [Num 20, Num 40] (Num (1 / 2)),
         simulator_packet ''H3'' 0 [Num 30, Num 60] (Num (1 / 2))],
     globalWeights = None, currentVersion = 0,
     roundManager = \<lparr>CurrentRound = 0, ExpectedClients = 3, ReceivedClients = fmupd ''H3'' True (fmupd ''H2'' True (fmupd ''H1'' True fmempty)),
                      State = RoundAggregating\<rparr>\<rparr>))
   \<and> map (\<lambda>p. length (Weights p)) (receivedUpdates
       (\<lparr>receivedUpdates = [simulator_packet ''H1'' 0 [Num 10, Num 20] (Num (1 / 2)),
         simulator_packet ''H2'' 0 [Num 20, Num 40] (Num (1 / 2)),
         simulator_packet ''H3'' 0 [Num 30, Num 60] (Num (1 / 2))],
     globalWeights = None, currentVersion = 0,
     roundManager = \<lparr>CurrentRound = 0, ExpectedClients = 3, ReceivedClients = fmupd ''H3'' True (fmupd ''H2'' True (fmupd ''H1'' True fmempty)),
                      State = RoundAggregating\<rparr>\<rparr>)) = [2, 2, 2]
   \<and> aggregateUpdates binary64
       (\<lparr>receivedUpdates = [simulator_packet ''H1'' 0 [Num 10, Num 20] (Num (1 / 2)),
         simulator_packet ''H2'' 0 [Num 20, Num 40] (Num (1 / 2)),
         simulator_packet ''H3'' 0 [Num 30, Num 60] (Num (1 / 2))],
     globalWeights = None, currentVersion = 0,
     roundManager = \<lparr>CurrentRound = 0, ExpectedClients = 3, ReceivedClients = fmupd ''H3'' True (fmupd ''H2'' True (fmupd ''H1'' True fmempty)),
                      State = RoundAggregating\<rparr>\<rparr>)
     = (\<lparr>receivedUpdates = [],
     globalWeights = Some [Num 20, Num 40], currentVersion = 1,
     roundManager = \<lparr>CurrentRound = 1, ExpectedClients = 3, ReceivedClients = fmempty,
                      State = RoundWaiting\<rparr>\<rparr>, None)"
proof -
  let ?s = "\<lparr>receivedUpdates = [simulator_packet ''H1'' 0 [Num 10, Num 20] (Num (1 / 2)),
         simulator_packet ''H2'' 0 [Num 20, Num 40] (Num (1 / 2)),
         simulator_packet ''H3'' 0 [Num 30, Num 60] (Num (1 / 2))],
     globalWeights = None, currentVersion = 0,
     roundManager = \<lparr>CurrentRound = 0, ExpectedClients = 3, ReceivedClients = fmupd ''H3'' True (fmupd ''H2'' True (fmupd ''H1'' True fmempty)),
                      State = RoundAggregating\<rparr>\<rparr>"
  have h: "3 \<le> length (receivedUpdates ?s)"
    by simp
  have a: "\<forall>p \<in> set (receivedUpdates ?s). length (Weights p) = 2"
    by (simp add: simulator_packet_def)
  have l: "map (\<lambda>p. length (Weights p)) (receivedUpdates ?s) = [2, 2, 2]"
    by (simp add: simulator_packet_def)
  have u: "[0..<2] = [0, Suc 0]"
    by (simp add: numeral_2_eq_2)
  have "aggregateUpdates binary64 ?s = (\<lparr>receivedUpdates = [],
     globalWeights = Some [Num 20, Num 40], currentVersion = 1,
     roundManager = \<lparr>CurrentRound = 1, ExpectedClients = 3, ReceivedClients = fmempty,
                      State = RoundWaiting\<rparr>\<rparr>, None)"
    by (subst aggregation_is_float64_mean [OF h a, of binary64, THEN conjunct1])
      (simp add: u simulator_packet_def eval_binary64 eval_rm)
  then show ?thesis
    using h l by blast
qed

text \<open>
  C8 as stated fails: three updates \<open>[huge]\<close> pass the handler's validation, their
  aggregation publishes \<open>[+Inf]\<close> as version 1, and the read that follows gives neither
  not-found nor that snapshot, but an empty body.
\<close>

theorem read_unencodable_model_counterexample:
  "snapshots binary64 initial_server
     [Submit (simulator_packet ''H1'' 0 [Num huge] (Num (1 / 2))),
      Submit (simulator_packet ''H2'' 0 [Num huge] (Num (1 / 2))),
      Submit (simulator_packet ''H3'' 0 [Num huge] (Num (1 / 2))),
      Aggregate] = [([PosInf], 1)]
   \<and> handleGetGlobalModel binary64 (fst (run binary64 initial_server
     [Submit (simulator_packet ''H1'' 0 [Num huge] (Num (1 / 2))),
      Submit (simulator_packet ''H2'' 0 [Num huge] (Num (1 / 2))),
      Submit (simulator_packet ''H3'' 0 [Num huge] (Num (1 / 2))),
      Aggregate])) = EmptyBody"
  unfolding overflow_run overflow_snapshots
  by (simp add: handleGetGlobalModel_def binary64_def)

theorem read_global_model_witness:
  "handleGetGlobalModel binary64 (initial_server :: float64 Server) = NotFound
   \<and> snapshots binary64 initial_server [] = []
   \<and> snapshots binary64 initial_server
     [Submit (simulator_packet ''H1'' 0 [Num 10, Num 20] (Num (1 / 2))),
      Submit (simulator_packet ''H2'' 0 [Num 20, Num 40] (Num (1 / 2))),
      Submit (simulator_packet ''H3'' 0 [Num 30, Num 60] (Num (1 / 2))),
      Aggregate] = [([Num 20, Num 40], 1)]
   \<and> handleGetGlobalModel binary64
       (\<lparr>receivedUpdates = [],
     globalWeights = Some [Num 20, Num 40], currentVersion = 1,
     roundManager = \<lparr>CurrentRound = 1, ExpectedClients = 3, ReceivedClients = fmempty,
                      State = RoundWaiting\<rparr>\<rparr>) = Model [Num 20, Num 40] 1
   \<and> snapshots binary64 initial_server
     [Submit (simulator_packet ''H1'' 0 [Num huge] (Num (1 / 2))),
      Submit (simulator_packet ''H2'' 0 [Num huge] (Num (1 / 2))),
      Submit (simulator_packet ''H3'' 0 [Num huge] (Num (1 / 2))),
      Aggregate] = [([PosInf], 1)]
   \<and> handleGetGlobalModel binary64
       (\<lparr>receivedUpdates = [],
     globalWeights = Some [PosInf], currentVersion = 1,
     roundManager = \<lparr>CurrentRound = 1, ExpectedClients = 3, ReceivedClients = fmempty,
                      State = RoundWaiting\<rparr>\<rparr>) = EmptyBody"
proof -
  have r0: "run binary64 initial_server [] = (initial_server, None)"
    and s0: "snapshots binary64 initial_server [] = []"
    by simp_all
  have none: "handleGetGlobalModel binary64 (initial_server :: float64 Server) = NotFound"
    using read_global_model [OF r0] s0 by blast
  have fin: "list_all (f_finite binary64) (fst (last (snapshots binary64 initial_server
     [Submit (simulator_packet ''H1'' 0 [Num 10, Num 20] (Num (1 / 2))),
      Submit (simulator_packet ''H2'' 0 [Num 20, Num 40] (Num (1 / 2))),
      Submit (simulator_packet ''H3'' 0 [Num 30, Num 60] (Num (1 / 2))),
      Aggregate])))"
    unfolding simulator_snapshots by (simp add: binary64_def)
  have ne: "snapshots binary64 initial_server
     [Submit (simulator_packet ''H1'' 0 [Num 10, Num 20] (Num (1 / 2))),
      Submit (simulator_packet ''H2'' 0 [Num 20, Num 40] (Num (1 / 2))),
      Submit (simulator_packet ''H3'' 0 [Num 30, Num 60] (Num (1 / 2))),
      Aggregate] \<noteq> []"
    unfolding simulator_snapshots by simp
  have "handleGetGlobalModel binary64
       (\<lparr>receivedUpdates = [],
     globalWeights = Some [Num 20, Num 40], currentVersion = 1,
     roundManager = \<lparr>CurrentRound = 1, ExpectedClients = 3, ReceivedClients = fmempty,
                      State = RoundWaiting\<rparr>\<rparr>) =
      Model (fst (last (snapshots binary64 initial_server
     [Submit (simulator_packet ''H1'' 0 [Num 10, Num 20] (Num (1 / 2))),
      Submit (simulator_packet ''H2'' 0 [Num 20, Num 40] (Num (1 / 2))),
      Submit (simulator_packet ''H3'' 0 [Num 30, Num 60] (Num (1 / 2))),
      Aggregate])))
        (snd (last (snapshots binary64 initial_server
     [Submit (simulator_packet ''H1'' 0 [Num 10, Num 20] (Num (1 / 2))),
      Submit (simulator_packet ''H2'' 0 [Num 20, Num 40] (Num (1 / 2))),
      Submit (simulator_packet ''H3'' 0 [Num 30, Num 60] (Num (1 / 2))),
      Aggregate])))"
    using read_global_model [OF simulator_run] ne fin by blast
  then have some: "handleGetGlobalModel binary64
       (\<lparr>receivedUpdates = [],
     globalWeights = Some [Num 20, Num 40], currentVersion = 1,
     roundManager = \<lparr>CurrentRound = 1, ExpectedClients = 3, ReceivedClients = fmempty,
                      State = RoundWaiting\<rparr>\<rparr>) = Model [Num 20, Num 40] 1"
    unfolding simulator_snapshots by simp
  have inf: "\<not> list_all (f_finite binary64) (fst (last (snapshots binary64 initial_server
     [Submit (simulator_packet ''H1'' 0 [Num huge] (Num (1 / 2))),
      Submit (simulator_packet ''H2'' 0 [Num huge] (Num (1 / 2))),
      Submit (simulator_packet ''H3'' 0 [Num huge] (Num (1 / 2))),
      Aggregate])))"
    unfolding overflow_snapshots by (simp add: binary64_def)
  have ne': "snapshots binary64 initial_server
     [Submit (simulator_packet ''H1'' 0 [Num huge] (Num (1 / 2))),
      Submit (simulator_packet ''H2'' 0 [Num huge] (Num (1 / 2))),
      Submit (simulator_packet ''H3'' 0 [Num huge] (Num (1 / 2))),
      Aggregate] \<noteq> []"
    unfolding overflow_snapshots by simp
  have empty: "handleGetGlobalModel binary64
       (\<lparr>receivedUpdates = [],
     globalWeights = Some [PosInf], currentVersion = 1,
     roundManager = \<lparr>CurrentRound = 1, ExpectedClients = 3, ReceivedClients = fmempty,
                      State = RoundWaiting\<rparr>\<rparr>) = EmptyBody"
    using read_global_model [OF overflow_run] ne' inf by blast
  show ?thesis
    using none s0 simulator_snapshots some overflow_snapshots empty by blast
qed

end
